theory Spec2Isabelle
  imports Main "HOL-Library.Multiset" "HOL-Library.Sublist"
begin

section \<open>Scoring engine (public/rules.js)\<close>

subsection \<open>Rule configuration\<close>

text \<open>
  The rule configuration object \<^verbatim>\<open>DEFAULT_RULES\<close>: point values (non-negative
  integers), feature toggles and logic variants, field by field.
\<close>

record rules =
  single1 :: nat
  single5 :: nat
  triple1 :: nat
  triple2 :: nat
  triple3 :: nat
  triple4 :: nat
  triple5 :: nat
  triple6 :: nat
  straight :: nat
  threePairs :: nat
  fourOfAKind :: nat
  fiveOfAKind :: nat
  sixOfAKind :: nat
  sixOnes :: nat
  twoTriplets :: nat
  fullHouseBonus :: nat
  fourStraight :: nat
  fiveStraight :: nat
  enableThreePairs :: bool
  enableTwoTriplets :: bool
  enableFullHouse :: bool
  enableSixOnesInstantWin :: bool
  enable4Straight :: bool
  enable5Straight :: bool
  openingScore :: nat
  winScore :: nat
  threeFarklesPenalty :: nat
  toxicTwos :: bool
  welfareMode :: bool
  highStakes :: bool
  noFarkleFirstRoll :: bool

definition DEFAULT_RULES :: rules where
  "DEFAULT_RULES =
     \<lparr> single1 = 100, single5 = 50,
       triple1 = 1000, triple2 = 200, triple3 = 300, triple4 = 400, triple5 = 500,
       triple6 = 600,
       straight = 1500, threePairs = 1500,
       fourOfAKind = 1000, fiveOfAKind = 2000, sixOfAKind = 3000, sixOnes = 5000,
       twoTriplets = 2500, fullHouseBonus = 250, fourStraight = 500, fiveStraight = 1200,
       enableThreePairs = True, enableTwoTriplets = True, enableFullHouse = False,
       enableSixOnesInstantWin = False, enable4Straight = False, enable5Straight = False,
       openingScore = 0, winScore = 10000, threeFarklesPenalty = 1000,
       toxicTwos = False, welfareMode = False, highStakes = False,
       noFarkleFirstRoll = True \<rparr>"

subsection \<open>The tally object \<^verbatim>\<open>counts\<close>\<close>

text \<open>
  \<^verbatim>\<open>counts[die] = (counts[die] || 0) + 1\<close> on a JavaScript object whose keys are
  die faces. The object is an association list from face to count; JavaScript
  enumerates integer keys in ascending order, so a new key is inserted at its place.
\<close>

fun bump :: "nat \<Rightarrow> (nat \<times> nat) list \<Rightarrow> (nat \<times> nat) list" where
  "bump d [] = [(d, 1)]"
| "bump d ((k, c) # kcs) =
     (if d = k then (k, c + 1) # kcs
      else if d < k then (d, 1) # (k, c) # kcs
      else (k, c) # bump d kcs)"

definition tally :: "nat list \<Rightarrow> (nat \<times> nat) list" where
  "tally dice = fold bump dice []"

text \<open>\<^verbatim>\<open>counts[face] || 0\<close>: the count, 0 for a missing key.\<close>

definition cnt :: "(nat \<times> nat) list \<Rightarrow> nat \<Rightarrow> nat" where
  "cnt counts face = (case map_of counts face of None \<Rightarrow> 0 | Some c \<Rightarrow> c)"

text \<open>\<^verbatim>\<open>counts[face]\<close> read as a condition: a missing key and 0 are falsy.\<close>

definition truthy :: "(nat \<times> nat) list \<Rightarrow> nat \<Rightarrow> bool" where
  "truthy counts face = (case map_of counts face of None \<Rightarrow> False | Some c \<Rightarrow> c \<noteq> 0)"

text \<open>\<^verbatim>\<open>counts[face] >= n\<close> and \<^verbatim>\<open>counts[face] > n\<close>: false for a missing key.\<close>

definition cntGe :: "(nat \<times> nat) list \<Rightarrow> nat \<Rightarrow> nat \<Rightarrow> bool" where
  "cntGe counts face n = (case map_of counts face of None \<Rightarrow> False | Some c \<Rightarrow> n \<le> c)"

definition cntGt :: "(nat \<times> nat) list \<Rightarrow> nat \<Rightarrow> nat \<Rightarrow> bool" where
  "cntGt counts face n = (case map_of counts face of None \<Rightarrow> False | Some c \<Rightarrow> n < c)"

text \<open>\<^verbatim>\<open>Object.values(counts).every(c => c === 2)\<close>.\<close>

definition everyTwo :: "(nat \<times> nat) list \<Rightarrow> bool" where
  "everyTwo counts = list_all (\<lambda>c. c = 2) (map snd counts)"

subsection \<open>calculateScore\<close>

text \<open>The \<^verbatim>\<open>switch (face)\<close> that picks the base triple value.\<close>

definition tripleValue :: "rules \<Rightarrow> nat \<Rightarrow> nat" where
  "tripleValue rules face =
     (if face = 1 then triple1 rules
      else if face = 2 then triple2 rules
      else if face = 3 then triple3 rules
      else if face = 4 then triple4 rules
      else if face = 5 then triple5 rules
      else if face = 6 then triple6 rules
      else 0)"

text \<open>
  One iteration of the loop \<^verbatim>\<open>for (let face = 1; face <= 6; face++)\<close>: what the body
  adds to \<^verbatim>\<open>score\<close> for a face whose \<^verbatim>\<open>count\<close> is \<open>n\<close>. The braces are the
  source's: the branch \<^verbatim>\<open>else if (count === 4)\<close> first adds
  \<^verbatim>\<open>rules.fourOfAKind || (tripleValue * 2)\<close> and then runs the inner
  \<^verbatim>\<open>if (face === 1 && ...) ... else ...\<close>; the chain has no branch for a count
  of 5 or 6.
\<close>

definition faceScore :: "rules \<Rightarrow> nat \<Rightarrow> nat \<Rightarrow> nat" where
  "faceScore rules face n =
     (if n = 0 then 0
      else if 3 \<le> n then
        (if n = 3 then tripleValue rules face
         else if n = 4 then
           (if fourOfAKind rules \<noteq> 0 then fourOfAKind rules else tripleValue rules face * 2)
           + (if face = 1 \<and> fourOfAKind rules < 1000 + (n - 3) * 100
              then tripleValue rules face + (n - 3) * single1 rules
              else if n = 4 then fourOfAKind rules
              else if n = 5 then fiveOfAKind rules
              else if n = 6 then sixOfAKind rules
              else tripleValue rules face)
         else 0)
      else if face = 1 then n * single1 rules
      else if face = 5 then n * single5 rules
      else 0)"

definition standardCounting :: "rules \<Rightarrow> (nat \<times> nat) list \<Rightarrow> nat" where
  "standardCounting rules counts =
     fold (\<lambda>face score. score + faceScore rules face (cnt counts face)) [1..<7] 0"

definition calculateScore :: "nat list \<Rightarrow> rules \<Rightarrow> nat" where
  "calculateScore dice rules =
     (if dice = [] then 0
      else
        let counts = tally dice;
            distinctKeys = length (map fst counts);
            totalDice = length dice
        in
          if totalDice = 6 \<and> distinctKeys = 6 then straight rules
          else if map_of counts 1 = Some 6 then sixOnes rules
          else if list_ex (\<lambda>i. map_of counts i = Some 6) [2..<7] then sixOfAKind rules
          else if enable5Straight rules \<and> totalDice = 5 \<and> distinctKeys = 5 \<and>
                  ((truthy counts 1 \<and> truthy counts 2 \<and> truthy counts 3 \<and> truthy counts 4
                      \<and> truthy counts 5 \<and> \<not> truthy counts 6) \<or>
                   (truthy counts 2 \<and> truthy counts 3 \<and> truthy counts 4 \<and> truthy counts 5
                      \<and> truthy counts 6 \<and> \<not> truthy counts 1))
            then fiveStraight rules
          else if enable4Straight rules \<and> totalDice = 4 \<and> distinctKeys = 4 \<and>
                  ((truthy counts 1 \<and> truthy counts 2 \<and> truthy counts 3 \<and> truthy counts 4
                      \<and> \<not> truthy counts 5 \<and> \<not> truthy counts 6) \<or>
                   (truthy counts 2 \<and> truthy counts 3 \<and> truthy counts 4 \<and> truthy counts 5
                      \<and> \<not> truthy counts 1 \<and> \<not> truthy counts 6) \<or>
                   (truthy counts 3 \<and> truthy counts 4 \<and> truthy counts 5 \<and> truthy counts 6
                      \<and> \<not> truthy counts 1 \<and> \<not> truthy counts 2))
            then fourStraight rules
          else if enableThreePairs rules \<and> totalDice = 6 \<and> distinctKeys = 3 \<and> everyTwo counts
            then threePairs rules
          else if enableTwoTriplets rules \<and> totalDice = 6 \<and> distinctKeys = 2 \<and>
                  map snd counts ! 0 = 3 \<and> map snd counts ! 1 = 3
            then twoTriplets rules
          else standardCounting rules counts)"

subsection \<open>hasPossibleMoves\<close>

definition hasPossibleMoves :: "nat list \<Rightarrow> rules \<Rightarrow> bool" where
  "hasPossibleMoves dice rules =
     (if dice = [] then False
      else
        let counts = tally dice in
          if cntGt counts 1 0 \<or> cntGt counts 5 0 then True
          else if list_ex (\<lambda>i. cntGe counts i 3) [1..<7] then True
          else if length (map fst counts) = 6 then True
          else if enableThreePairs rules \<and> length dice = 6 \<and> everyTwo counts then True
          else if enable5Straight rules \<and> 5 \<le> length dice \<and>
                  ((truthy counts 1 \<and> truthy counts 2 \<and> truthy counts 3 \<and> truthy counts 4
                      \<and> truthy counts 5) \<or>
                   (truthy counts 2 \<and> truthy counts 3 \<and> truthy counts 4 \<and> truthy counts 5
                      \<and> truthy counts 6))
            then True
          else if enable4Straight rules \<and> 4 \<le> length dice \<and>
                  ((truthy counts 1 \<and> truthy counts 2 \<and> truthy counts 3 \<and> truthy counts 4) \<or>
                   (truthy counts 2 \<and> truthy counts 3 \<and> truthy counts 4 \<and> truthy counts 5) \<or>
                   (truthy counts 3 \<and> truthy counts 4 \<and> truthy counts 5 \<and> truthy counts 6))
            then True
          else False)"

subsection \<open>isScoringSelection\<close>

text \<open>
  The closing loop of \<^verbatim>\<open>isScoringSelection\<close> over the faces: a face that is
  present continues when it is 1 or 5, and returns false when it is another face with
  a count below 3.
\<close>

fun checkFaces :: "(nat \<times> nat) list \<Rightarrow> nat list \<Rightarrow> bool" where
  "checkFaces counts [] = True"
| "checkFaces counts (face # faces) =
     (let c = cnt counts face in
        if 0 < c then
          (if face = 1 \<or> face = 5 then checkFaces counts faces
           else if c < 3 then False
           else checkFaces counts faces)
        else checkFaces counts faces)"

definition isScoringSelection :: "nat list \<Rightarrow> rules \<Rightarrow> bool" where
  "isScoringSelection dice rules =
     (let score = calculateScore dice rules in
        if score = 0 then False
        else
          let counts = tally dice in
            if length dice = 6 \<and> length (map fst counts) = 6 then True
            else if enableThreePairs rules \<and> length dice = 6 \<and> everyTwo counts then True
            else if enable5Straight rules \<and> length dice = 5 \<and> length (map fst counts) = 5 \<and>
                    (\<not> truthy counts 6 \<or> \<not> truthy counts 1)
              then True
            else if enable4Straight rules \<and> length dice = 4 \<and> length (map fst counts) = 4 \<and>
                    ((truthy counts 1 \<and> truthy counts 2 \<and> truthy counts 3 \<and> truthy counts 4) \<or>
                     (truthy counts 2 \<and> truthy counts 3 \<and> truthy counts 4 \<and> truthy counts 5) \<or>
                     (truthy counts 3 \<and> truthy counts 4 \<and> truthy counts 5 \<and> truthy counts 6))
              then True
            else checkFaces counts [1..<7])"

section \<open>Match state machine (server.js)\<close>

subsection \<open>State\<close>

datatype status = Waiting | Playing | Finished

text \<open>A player object \<^verbatim>\<open>{ id, name, score, connected }\<close>.\<close>

record player =
  playerId :: string
  name :: string
  score :: nat
  connected :: bool

text \<open>A die object \<^verbatim>\<open>{ id, value, selected }\<close>.\<close>

record die =
  dieId :: string
  dieValue :: nat
  selected :: bool

text \<open>
  \<^verbatim>\<open>winner\<close> is \<^verbatim>\<open>null\<close>, a reference to one of the two player objects (kept
  as its seat), or the string \<^verbatim>\<open>'tie'\<close>.
\<close>

datatype winner = NoWinner | PlayerAt nat | Tie

record gameState =
  roomCode :: string
  players :: "player list"
  currentPlayerIndex :: nat
  roundAccumulatedScore :: nat
  diceCountToRoll :: nat
  currentDice :: "die list"
  isFinalRound :: bool
  finalRoundTriggeredBy :: "nat option"
  gameStatus :: status
  winner :: winner

text \<open>
  The error objects \<^verbatim>\<open>{ error: "..." }\<close> the methods return and the handlers
  emit, named as the specification names them.
\<close>

datatype error =
  GameNotActive | NotYourTurn | MustSelectToReroll | InvalidSelection | CannotBankZero
  | RoomFull

fun message :: "error \<Rightarrow> string" where
  "message GameNotActive = ''Game not active''"
| "message NotYourTurn = ''Not your turn''"
| "message MustSelectToReroll = ''Must select dice to re-roll''"
| "message InvalidSelection = ''Invalid selection''"
| "message CannotBankZero = ''Cannot bank 0''"
| "message RoomFull = ''Room Full''"

text \<open>
  How a method call ends: it raises a TypeError (a property read on \<^verbatim>\<open>undefined\<close>),
  returns \<^verbatim>\<open>undefined\<close> (a bare \<^verbatim>\<open>return;\<close> or the end of a body), returns an
  error object, or returns a result. The state beside it is the state the call leaves.
\<close>

datatype 'a outcome = Threw | Undefined | Error error | Success 'a

definition new_GameState :: "string \<Rightarrow> gameState" where
  "new_GameState code =
     \<lparr> roomCode = code, players = [], currentPlayerIndex = 0,
       roundAccumulatedScore = 0, diceCountToRoll = 6, currentDice = [],
       isFinalRound = False, finalRoundTriggeredBy = None,
       gameStatus = Waiting, winner = NoWinner \<rparr>"

definition addPlayer :: "string \<Rightarrow> string \<Rightarrow> gameState \<Rightarrow> bool \<times> gameState" where
  "addPlayer i nm s =
     (if 2 \<le> length (players s) then (False, s)
      else (True, s\<lparr>players := players s @
              [\<lparr>playerId = i, name = nm, score = 0, connected = True\<rparr>]\<rparr>))"

definition resetRound :: "gameState \<Rightarrow> gameState" where
  "resetRound s = s\<lparr>roundAccumulatedScore := 0, diceCountToRoll := 6, currentDice := []\<rparr>"

definition start :: "gameState \<Rightarrow> bool \<times> gameState" where
  "start s =
     (if length (players s) = 2
      then (True, resetRound (s\<lparr>gameStatus := Playing, currentPlayerIndex := 0\<rparr>))
      else (False, s))"

text \<open>\<^verbatim>\<open>this.players[this.currentPlayerIndex]\<close>: \<^verbatim>\<open>undefined\<close> out of range.\<close>

definition getCurrentPlayer :: "gameState \<Rightarrow> player option" where
  "getCurrentPlayer s =
     (if currentPlayerIndex s < length (players s)
      then Some (players s ! currentPlayerIndex s) else None)"

subsection \<open>End of game and turn advance\<close>

text \<open>
  \<^verbatim>\<open>endGame\<close> sets the status first and then reads \<^verbatim>\<open>players[0].score\<close> and
  \<^verbatim>\<open>players[1].score\<close>, which raises when a seat is missing.
\<close>

definition endGame :: "gameState \<Rightarrow> unit outcome \<times> gameState" where
  "endGame s =
     (let s1 = s\<lparr>gameStatus := Finished\<rparr> in
        if length (players s1) < 2 then (Threw, s1)
        else
          let p1 = players s1 ! 0; p2 = players s1 ! 1 in
            if score p2 < score p1 then (Undefined, s1\<lparr>winner := PlayerAt 0\<rparr>)
            else if score p1 < score p2 then (Undefined, s1\<lparr>winner := PlayerAt 1\<rparr>)
            else (Undefined, s1\<lparr>winner := Tie\<rparr>))"

definition nextTurn :: "gameState \<Rightarrow> unit outcome \<times> gameState" where
  "nextTurn s =
     (let s1 = resetRound (s\<lparr>currentPlayerIndex := (currentPlayerIndex s + 1) mod 2\<rparr>) in
        if isFinalRound s1 then
          (if Some (currentPlayerIndex s1) = finalRoundTriggeredBy s1 then endGame s1
           else (Undefined, s1))
        else (Undefined, s1))"

text \<open>The threshold is the literal \<^verbatim>\<open>10000\<close> of \<^verbatim>\<open>checkWinCondition\<close>.\<close>

definition checkWinCondition :: "gameState \<Rightarrow> unit outcome \<times> gameState" where
  "checkWinCondition s =
     (case getCurrentPlayer s of
        None \<Rightarrow> (Threw, s)
      | Some p \<Rightarrow>
          if 10000 \<le> score p \<and> \<not> isFinalRound s
          then (Undefined, s\<lparr>isFinalRound := True,
                               finalRoundTriggeredBy := Some (currentPlayerIndex s)\<rparr>)
          else (Undefined, s))"

definition farkle :: "gameState \<Rightarrow> unit outcome \<times> gameState" where
  "farkle s = nextTurn (s\<lparr>roundAccumulatedScore := 0\<rparr>)"

subsection \<open>roll\<close>

text \<open>
  The result object of a successful \<^verbatim>\<open>roll\<close>:
  \<^verbatim>\<open>{ success: true, dice, farkle, roundScore, hotDice }\<close>.
\<close>

record rollResult =
  r_dice :: "die list"
  r_farkle :: bool
  r_roundScore :: nat
  r_hotDice :: bool

text \<open>
  The random source is a parameter: \<open>rng i\<close> is the identifier string and the value of
  \<^verbatim>\<open>Math.floor(Math.random() * 6)\<close> drawn for the \<open>i\<close>-th die of this roll.
\<close>

definition newDie :: "string \<times> nat \<Rightarrow> die" where
  "newDie r = \<lparr>dieId = fst r, dieValue = snd r mod 6 + 1, selected = False\<rparr>"

text \<open>The part of \<^verbatim>\<open>roll\<close> from \<^verbatim>\<open>// Perform Roll\<close> on.\<close>

definition performRoll ::
  "(nat \<Rightarrow> string \<times> nat) \<Rightarrow> nat \<Rightarrow> gameState \<Rightarrow> rollResult outcome \<times> gameState" where
  "performRoll rng scoreFromSelection s =
     (let newDice = map (\<lambda>i. newDie (rng i)) [0..<diceCountToRoll s];
          s1 = s\<lparr>currentDice := newDice\<rparr>;
          rolledValues = map dieValue newDice;
          fk = \<not> hasPossibleMoves rolledValues DEFAULT_RULES
      in (Success \<lparr>r_dice = newDice, r_farkle = fk,
                    r_roundScore = roundAccumulatedScore s1,
                    r_hotDice = (0 < scoreFromSelection \<and> diceCountToRoll s1 = 6)\<rparr>, s1))"

definition roll ::
  "(nat \<Rightarrow> string \<times> nat) \<Rightarrow> string \<Rightarrow> gameState \<Rightarrow> rollResult outcome \<times> gameState" where
  "roll rng pid s =
     (if gameStatus s \<noteq> Playing then (Error GameNotActive, s)
      else case getCurrentPlayer s of
        None \<Rightarrow> (Threw, s)
      | Some p \<Rightarrow>
          if playerId p \<noteq> pid then (Error NotYourTurn, s)
          else if 0 < length (currentDice s) then
            (let sel = filter selected (currentDice s) in
               if length sel = 0 then (Error MustSelectToReroll, s)
               else
                 let vals = map dieValue sel in
                   if \<not> isScoringSelection vals DEFAULT_RULES then (Error InvalidSelection, s)
                   else
                     let scoreFromSelection = calculateScore vals DEFAULT_RULES;
                         s1 = s\<lparr>roundAccumulatedScore :=
                                  roundAccumulatedScore s + scoreFromSelection\<rparr>;
                         remaining = length (currentDice s1) - length sel;
                         s2 = (if remaining = 0 then s1\<lparr>diceCountToRoll := 6\<rparr>
                               else s1\<lparr>diceCountToRoll := remaining\<rparr>)
                     in performRoll rng scoreFromSelection s2)
          else
            performRoll rng 0
              (if length (currentDice s) = 0 then s\<lparr>diceCountToRoll := 6\<rparr> else s))"

subsection \<open>toggleSelection\<close>

text \<open>\<^verbatim>\<open>currentDice.find(d => d.id == dieId)\<close> and the flip of the die found.\<close>

fun flipFirst :: "string \<Rightarrow> die list \<Rightarrow> die list" where
  "flipFirst i [] = []"
| "flipFirst i (d # ds) =
     (if dieId d = i then d\<lparr>selected := \<not> selected d\<rparr> # ds else d # flipFirst i ds)"

definition toggleSelection :: "string \<Rightarrow> string \<Rightarrow> gameState \<Rightarrow> bool outcome \<times> gameState" where
  "toggleSelection pid i s =
     (if gameStatus s \<noteq> Playing then (Undefined, s)
      else case getCurrentPlayer s of
        None \<Rightarrow> (Threw, s)
      | Some p \<Rightarrow>
          if playerId p \<noteq> pid then (Undefined, s)
          else (Success True, s\<lparr>currentDice := flipFirst i (currentDice s)\<rparr>))"

subsection \<open>bank\<close>

text \<open>\<^verbatim>\<open>this.players[this.currentPlayerIndex].score += this.roundAccumulatedScore\<close>.\<close>

definition addToCurrent :: "gameState \<Rightarrow> gameState" where
  "addToCurrent s =
     s\<lparr>players := (players s)[currentPlayerIndex s :=
          (players s ! currentPlayerIndex s)
            \<lparr>score := score (players s ! currentPlayerIndex s) + roundAccumulatedScore s\<rparr>]\<rparr>"

text \<open>
  The part of \<^verbatim>\<open>bank\<close> after the selection is validated. The current player exists
  here (the caller checked it), so the update by index is in range.
\<close>

definition commitBank :: "nat \<Rightarrow> gameState \<Rightarrow> unit outcome \<times> gameState" where
  "commitBank scoreToAdd s =
     (let s1 = s\<lparr>roundAccumulatedScore := roundAccumulatedScore s + scoreToAdd\<rparr>;
          s2 = addToCurrent s1
      in case checkWinCondition s2 of
           (Threw, s3) \<Rightarrow> (Threw, s3)
         | (_, s3) \<Rightarrow>
             if gameStatus s3 \<noteq> Finished then
               (case nextTurn s3 of
                  (Threw, s4) \<Rightarrow> (Threw, s4)
                | (_, s4) \<Rightarrow> (Success (), s4))
             else (Success (), s3))"

definition bank :: "string \<Rightarrow> gameState \<Rightarrow> unit outcome \<times> gameState" where
  "bank pid s =
     (if gameStatus s \<noteq> Playing then (Undefined, s)
      else case getCurrentPlayer s of
        None \<Rightarrow> (Threw, s)
      | Some p \<Rightarrow>
          if playerId p \<noteq> pid then (Undefined, s)
          else
            let sel = filter selected (currentDice s);
                vals = map dieValue sel
            in
              if 0 < length sel then
                (if isScoringSelection vals DEFAULT_RULES
                 then commitBank (calculateScore vals DEFAULT_RULES) s
                 else (Error InvalidSelection, s))
              else if 0 < length (currentDice s) \<and> roundAccumulatedScore s = 0
                then (Error CannotBankZero, s)
              else commitBank 0 s)"

subsection \<open>Socket handlers: join, leave, restart\<close>

text \<open>\<^verbatim>\<open>Array.prototype.find\<close>, as the position of the first element found.\<close>

fun findIndex :: "('a \<Rightarrow> bool) \<Rightarrow> 'a list \<Rightarrow> nat option" where
  "findIndex P [] = None"
| "findIndex P (x # xs) =
     (if P x then Some 0 else map_option Suc (findIndex P xs))"

text \<open>
  The \<^verbatim>\<open>join_game\<close> handler on the room's game: the error it emits, if any, and
  the state it leaves.
\<close>

definition join_game :: "string \<Rightarrow> string \<Rightarrow> gameState \<Rightarrow> error option \<times> gameState" where
  "join_game sid nm s =
     (let byName = findIndex (\<lambda>p. name p = nm) (players s);
          (existingPlayer, s1) =
            (if byName = None \<and> 2 \<le> length (players s) then
               (case findIndex (\<lambda>p. \<not> connected p) (players s) of
                  Some j \<Rightarrow>
                    (Some j, s\<lparr>players := (players s)[j :=
                       (players s ! j)\<lparr>playerId := sid, name := nm, connected := True,
                                        score := 0\<rparr>]\<rparr>)
                | None \<Rightarrow> (None, s))
             else (byName, s))
      in
        if 2 \<le> length (players s1) \<and> existingPlayer = None then (Some RoomFull, s1)
        else
          let (ok, s2) =
                (case existingPlayer of
                   Some j \<Rightarrow>
                     (True, s1\<lparr>players := (players s1)[j :=
                        (players s1 ! j)\<lparr>playerId := sid, connected := True\<rparr>]\<rparr>)
                 | None \<Rightarrow> addPlayer sid nm s1)
          in
            if \<not> ok then (Some RoomFull, s2)
            else if length (players s2) = 2 \<and> gameStatus s2 = Waiting
              then (None, snd (start s2))
            else (None, s2))"

text \<open>The \<^verbatim>\<open>leave_game\<close> and \<^verbatim>\<open>disconnect\<close> handlers on one game.\<close>

definition leave_game :: "string \<Rightarrow> gameState \<Rightarrow> gameState" where
  "leave_game sid s =
     (case findIndex (\<lambda>p. playerId p = sid) (players s) of
        None \<Rightarrow> s
      | Some j \<Rightarrow>
          let s1 = s\<lparr>players := (players s)[j := (players s ! j)\<lparr>connected := False\<rparr>]\<rparr> in
            if gameStatus s1 = Waiting
            then s1\<lparr>players := filter (\<lambda>pl. playerId pl \<noteq> sid) (players s1)\<rparr>
            else s1)"

text \<open>
  The \<^verbatim>\<open>restart\<close> handler: whether it acted (and emitted \<^verbatim>\<open>game_start\<close>), and
  the state it leaves.
\<close>

definition restart :: "gameState \<Rightarrow> bool \<times> gameState" where
  "restart s =
     (if gameStatus s = Finished then
        (let s1 = s\<lparr>gameStatus := Playing\<rparr>;
             s2 = s1\<lparr>players := map (\<lambda>p. p\<lparr>score := 0\<rparr>) (players s1)\<rparr>;
             s3 = s2\<lparr>currentPlayerIndex := 0\<rparr>;
             s4 = resetRound s3;
             s5 = s4\<lparr>isFinalRound := False\<rparr>;
             s6 = s5\<lparr>winner := NoWinner\<rparr>
         in (True, s6))
      else (False, s))"

subsection \<open>Reachable states\<close>

text \<open>
  The states a room's game goes through: created by the constructor, then changed by
  the handlers and by the bust timer (\<^verbatim>\<open>farkle\<close>), in any order and with any
  arguments.
\<close>

inductive reachable :: "gameState \<Rightarrow> bool" where
  r_new: "reachable (new_GameState code)"
| r_join: "reachable s \<Longrightarrow> reachable (snd (join_game sid nm s))"
| r_leave: "reachable s \<Longrightarrow> reachable (leave_game sid s)"
| r_roll: "reachable s \<Longrightarrow> reachable (snd (roll rng pid s))"
| r_toggle: "reachable s \<Longrightarrow> reachable (snd (toggleSelection pid i s))"
| r_bank: "reachable s \<Longrightarrow> reachable (snd (bank pid s))"
| r_farkle: "reachable s \<Longrightarrow> reachable (snd (farkle s))"
| r_restart: "reachable s \<Longrightarrow> reachable (snd (restart s))"

subsection \<open>Concrete games\<close>

text \<open>
  A room after two players joined: the game has started, seat 0 (Ann, socket
  \<^verbatim>\<open>s1\<close>) is current and nothing has been rolled.
\<close>

definition twoSeated :: gameState where
  "twoSeated =
     snd (join_game ''s2'' ''Bob'' (snd (join_game ''s1'' ''Ann'' (new_GameState ''Table 1''))))"

text \<open>The same game with three dice on the table, none selected.\<close>

definition threeOnTable :: gameState where
  "threeOnTable =
     twoSeated\<lparr>diceCountToRoll := 3, currentDice :=
       [\<lparr>dieId = ''a'', dieValue = 2, selected = False\<rparr>,
        \<lparr>dieId = ''b'', dieValue = 5, selected = False\<rparr>,
        \<lparr>dieId = ''c'', dieValue = 6, selected = False\<rparr>]\<rparr>"

text \<open>A random source whose every draw is 0: each die shows a 1.\<close>

definition rngZero :: "nat \<Rightarrow> string \<times> nat" where
  "rngZero i = ([], 0)"

text \<open>
  Seat 0 has 9900 points and has selected the single 1 on the table; seat 1 has 4000.
\<close>

definition lastSelection :: gameState where
  "lastSelection =
     twoSeated\<lparr>players :=
         [\<lparr>playerId = ''s1'', name = ''Ann'', score = 9900, connected = True\<rparr>,
          \<lparr>playerId = ''s2'', name = ''Bob'', score = 4000, connected = True\<rparr>],
       diceCountToRoll := 2,
       currentDice :=
         [\<lparr>dieId = ''a'', dieValue = 1, selected = True\<rparr>,
          \<lparr>dieId = ''b'', dieValue = 3, selected = False\<rparr>]\<rparr>"

text \<open>
  Seat 0 banks that selection and reaches 10000; seat 1 then banks at once, which ends
  the closing lap.
\<close>

definition closingLap :: gameState where
  "closingLap = snd (bank ''s1'' lastSelection)"

definition finishedGame :: gameState where
  "finishedGame = snd (bank ''s2'' closingLap)"

text \<open>Both dice on the table are selected: a 1 and a 5.\<close>

definition hotTable :: gameState where
  "hotTable =
     twoSeated\<lparr>diceCountToRoll := 2,
       currentDice :=
         [\<lparr>dieId = ''a'', dieValue = 1, selected = True\<rparr>,
          \<lparr>dieId = ''b'', dieValue = 5, selected = True\<rparr>]\<rparr>"

text \<open>All six dice on the table are selected: five 2s and a 5.\<close>

definition deadDiceTable :: gameState where
  "deadDiceTable =
     twoSeated\<lparr>currentDice :=
       [\<lparr>dieId = ''a'', dieValue = 2, selected = True\<rparr>,
        \<lparr>dieId = ''b'', dieValue = 2, selected = True\<rparr>,
        \<lparr>dieId = ''c'', dieValue = 2, selected = True\<rparr>,
        \<lparr>dieId = ''d'', dieValue = 2, selected = True\<rparr>,
        \<lparr>dieId = ''e'', dieValue = 2, selected = True\<rparr>,
        \<lparr>dieId = ''f'', dieValue = 5, selected = True\<rparr>]\<rparr>"

subsection \<open>The specification's notion of a complete selection\<close>

text \<open>
  A die contributes to the score of a selection when the selection without it scores
  strictly less: the test the comment in \<^verbatim>\<open>isScoringSelection\<close> names,
  \<^verbatim>\<open>calculateScore(dice_minus_one) < calculateScore(dice)\<close>. A selection is
  complete when its score is positive and every die in it contributes.
\<close>

definition withoutDie :: "nat \<Rightarrow> nat list \<Rightarrow> nat list" where
  "withoutDie i dice = take i dice @ drop (Suc i) dice"

definition everyDieContributes :: "nat list \<Rightarrow> rules \<Rightarrow> bool" where
  "everyDieContributes dice rules \<longleftrightarrow>
     list_all (\<lambda>i. calculateScore (withoutDie i dice) rules < calculateScore dice rules)
       [0..<length dice]"

definition completeSelection :: "nat list \<Rightarrow> rules \<Rightarrow> bool" where
  "completeSelection dice rules \<longleftrightarrow>
     0 < calculateScore dice rules \<and> everyDieContributes dice rules"

text \<open>
  A scoring sub-selection of a roll: a non-empty subsequence of the dice (every
  sub-multiset of the roll is one, up to order) with a positive score.
\<close>

definition scoringSubselection :: "nat list \<Rightarrow> rules \<Rightarrow> bool" where
  "scoringSubselection dice rules \<longleftrightarrow>
     list_ex (\<lambda>sel. sel \<noteq> [] \<and> 0 < calculateScore sel rules) (subseqs dice)"

subsection \<open>Auxiliary predicates\<close>

text \<open>A call succeeded: it returned a result object, not an error and not nothing.\<close>

fun succeeded :: "'a outcome \<Rightarrow> bool" where
  "succeeded (Success _) = True"
| "succeeded _ = False"

text \<open>The bounds on the dice: between 1 and 6 to roll, at most 6 on the table.\<close>

definition diceInv :: "gameState \<Rightarrow> bool" where
  "diceInv s \<longleftrightarrow>
     1 \<le> diceCountToRoll s \<and> diceCountToRoll s \<le> 6 \<and> length (currentDice s) \<le> 6"

text \<open>
  The seats of a game that has started: both are taken and the current seat is 0 or 1.
  A game still waiting has not begun a final round.
\<close>

definition seatsInv :: "gameState \<Rightarrow> bool" where
  "seatsInv s \<longleftrightarrow>
     (gameStatus s = Waiting \<longrightarrow> \<not> isFinalRound s) \<and>
     (gameStatus s \<noteq> Waiting \<longrightarrow> length (players s) = 2 \<and> currentPlayerIndex s < 2)"

text \<open>A final round in progress, or a finished game, has a trigger seat on record.\<close>

definition triggerInv :: "gameState \<Rightarrow> bool" where
  "triggerInv s \<longleftrightarrow>
     (isFinalRound s \<or> gameStatus s = Finished \<longrightarrow> finalRoundTriggeredBy s \<noteq> None)"

section \<open>Properties of the scoring engine\<close>

subsection \<open>The tally holds the count of every face present\<close>

lemma bump_keys: "fst ` set (bump d kcs) = insert d (fst ` set kcs)"
  by (induction d kcs rule: bump.induct) auto

lemma bump_sorted:
  "sorted_wrt (<) (map fst kcs) \<Longrightarrow> sorted_wrt (<) (map fst (bump d kcs))"
proof (induction d kcs rule: bump.induct)
  case (1 d)
  then show ?case by simp
next
  case (2 d k c kcs)
  have "\<forall>x \<in> fst ` set (bump d kcs). k < x" if "\<not> d = k" "\<not> d < k"
    using that 2(2) by (auto simp: bump_keys)
  with 2 show ?case by auto
qed

lemma bump_cnt:
  "sorted_wrt (<) (map fst kcs) \<Longrightarrow>
   cnt (bump d kcs) f = (if f = d then cnt kcs f + 1 else cnt kcs f)"
proof (induction d kcs rule: bump.induct)
  case (1 d)
  then show ?case by (simp add: cnt_def)
next
  case (2 d k c kcs)
  have "map_of kcs d = None" if "d < k"
  proof -
    have "d \<notin> fst ` set kcs" using that 2(2) by auto
    then show ?thesis by (simp add: map_of_eq_None_iff)
  qed
  with 2 show ?case by (auto simp: cnt_def)
qed

lemma bump_positive:
  "\<forall>c \<in> snd ` set kcs. 0 < c \<Longrightarrow> \<forall>c \<in> snd ` set (bump d kcs). 0 < c"
  by (induction d kcs rule: bump.induct) auto

lemma fold_bump:
  "sorted_wrt (<) (map fst acc) \<Longrightarrow> \<forall>c \<in> snd ` set acc. 0 < c \<Longrightarrow>
   sorted_wrt (<) (map fst (fold bump dice acc)) \<and>
   (\<forall>c \<in> snd ` set (fold bump dice acc). 0 < c) \<and>
   fst ` set (fold bump dice acc) = set dice \<union> fst ` set acc \<and>
   (\<forall>f. cnt (fold bump dice acc) f = count_list dice f + cnt acc f)"
proof (induction dice arbitrary: acc)
  case Nil
  then show ?case by simp
next
  case (Cons d dice)
  have s: "sorted_wrt (<) (map fst (bump d acc))" using Cons.prems(1) by (rule bump_sorted)
  have p: "\<forall>c \<in> snd ` set (bump d acc). 0 < c" using Cons.prems(2) by (rule bump_positive)
  from Cons.IH [OF s p] show ?case
    by (auto simp: bump_keys bump_cnt [OF Cons.prems(1)])
qed

lemma tally_sorted: "sorted_wrt (<) (map fst (tally dice))"
  using fold_bump [of "[]" dice] by (simp add: tally_def)

lemma tally_distinct: "distinct (map fst (tally dice))"
  using tally_sorted [of dice] by (simp add: strict_sorted_iff)

lemma tally_keys: "fst ` set (tally dice) = set dice"
  using fold_bump [of "[]" dice] by (simp add: tally_def)

lemma tally_positive: "(k, c) \<in> set (tally dice) \<Longrightarrow> 0 < c"
  using fold_bump [of "[]" dice] by (force simp: tally_def)

lemma cnt_tally [simp]: "cnt (tally dice) f = count_list dice f"
  using fold_bump [of "[]" dice] by (simp add: tally_def cnt_def)

lemma map_of_tally:
  "map_of (tally dice) f = (if f \<in> set dice then Some (count_list dice f) else None)"
proof (cases "map_of (tally dice) f")
  case None
  then have "f \<notin> set dice" by (simp add: map_of_eq_None_iff tally_keys)
  with None show ?thesis by simp
next
  case (Some c)
  then have "f \<in> set dice" by (metis tally_keys map_of_eq_None_iff option.distinct(1))
  moreover have "c = count_list dice f" using cnt_tally [of dice f] Some by (simp add: cnt_def)
  ultimately show ?thesis using Some by simp
qed

lemma length_tally: "length (tally dice) = card (set dice)"
proof -
  have "card (set dice) = card (set (map fst (tally dice)))" by (simp add: tally_keys)
  also have "\<dots> = length (map fst (tally dice))" by (rule distinct_card [OF tally_distinct])
  finally show ?thesis by simp
qed

lemma set_tally: "set (tally dice) = (\<lambda>f. (f, count_list dice f)) ` set dice"
proof (rule set_eqI)
  fix x :: "nat \<times> nat"
  obtain k c where x: "x = (k, c)" by (cases x)
  have "(k, c) \<in> set (tally dice) \<longleftrightarrow> map_of (tally dice) k = Some c"
    using tally_distinct [of dice] by simp
  then show "x \<in> set (tally dice) \<longleftrightarrow> x \<in> (\<lambda>f. (f, count_list dice f)) ` set dice"
    unfolding x by (auto simp: map_of_tally)
qed

lemma truthy_tally [simp]: "truthy (tally dice) f \<longleftrightarrow> f \<in> set dice"
  by (simp add: truthy_def map_of_tally count_list_0_iff)

lemma cntGe_tally [simp]: "cntGe (tally dice) f n \<longleftrightarrow> f \<in> set dice \<and> n \<le> count_list dice f"
  by (simp add: cntGe_def map_of_tally)

lemma cntGt_tally [simp]: "cntGt (tally dice) f n \<longleftrightarrow> n < count_list dice f"
  by (auto simp: cntGt_def map_of_tally count_list_0_iff)

lemma everyTwo_tally [simp]: "everyTwo (tally dice) \<longleftrightarrow> (\<forall>f \<in> set dice. count_list dice f = 2)"
  by (auto simp: everyTwo_def list_all_iff set_tally)

lemma is_six_tally [simp]: "map_of (tally dice) f = Some 6 \<longleftrightarrow> count_list dice f = 6"
  by (auto simp: map_of_tally count_list_0_iff)

subsection \<open>The scoring functions in terms of counts\<close>

lemma faces_upt: "[1..<7] = [1, 2, 3, 4, 5, 6]" "[2..<7] = [2, 3, 4, 5, 6]"
  by (simp_all add: upt_rec)

lemma standardCounting_sum:
  "standardCounting rules counts =
     faceScore rules 1 (cnt counts 1) + faceScore rules 2 (cnt counts 2) +
     faceScore rules 3 (cnt counts 3) + faceScore rules 4 (cnt counts 4) +
     faceScore rules 5 (cnt counts 5) + faceScore rules 6 (cnt counts 6)"
  unfolding standardCounting_def faces_upt by simp

lemma two_values:
  assumes "length (tally dice) = 2"
  shows "map snd (tally dice) ! 0 = 3 \<and> map snd (tally dice) ! 1 = 3 \<longleftrightarrow>
         (\<forall>f \<in> set dice. count_list dice f = 3)"
proof -
  obtain a b where ab: "tally dice = [a, b]"
    using assms by (cases "tally dice"; cases "tl (tally dice)") auto
  have "set (map snd (tally dice)) = count_list dice ` set dice"
    by (simp add: set_tally image_image)
  then have "(\<forall>f \<in> set dice. count_list dice f = 3) \<longleftrightarrow> (\<forall>c \<in> set (map snd (tally dice)). c = 3)"
    by auto
  then show ?thesis by (simp add: ab)
qed

lemma calculateScore_alt:
  "calculateScore dice rules =
     (if dice = [] then 0
      else if length dice = 6 \<and> card (set dice) = 6 then straight rules
      else if count_list dice 1 = 6 then sixOnes rules
      else if count_list dice 2 = 6 \<or> count_list dice 3 = 6 \<or> count_list dice 4 = 6 \<or>
              count_list dice 5 = 6 \<or> count_list dice 6 = 6 then sixOfAKind rules
      else if enable5Straight rules \<and> length dice = 5 \<and> card (set dice) = 5 \<and>
              ((1 \<in> set dice \<and> 2 \<in> set dice \<and> 3 \<in> set dice \<and> 4 \<in> set dice \<and>
                5 \<in> set dice \<and> 6 \<notin> set dice) \<or>
               (2 \<in> set dice \<and> 3 \<in> set dice \<and> 4 \<in> set dice \<and> 5 \<in> set dice \<and>
                6 \<in> set dice \<and> 1 \<notin> set dice))
        then fiveStraight rules
      else if enable4Straight rules \<and> length dice = 4 \<and> card (set dice) = 4 \<and>
              ((1 \<in> set dice \<and> 2 \<in> set dice \<and> 3 \<in> set dice \<and> 4 \<in> set dice \<and>
                5 \<notin> set dice \<and> 6 \<notin> set dice) \<or>
               (2 \<in> set dice \<and> 3 \<in> set dice \<and> 4 \<in> set dice \<and> 5 \<in> set dice \<and>
                1 \<notin> set dice \<and> 6 \<notin> set dice) \<or>
               (3 \<in> set dice \<and> 4 \<in> set dice \<and> 5 \<in> set dice \<and> 6 \<in> set dice \<and>
                1 \<notin> set dice \<and> 2 \<notin> set dice))
        then fourStraight rules
      else if enableThreePairs rules \<and> length dice = 6 \<and> card (set dice) = 3 \<and>
              (\<forall>f \<in> set dice. count_list dice f = 2)
        then threePairs rules
      else if enableTwoTriplets rules \<and> length dice = 6 \<and> card (set dice) = 2 \<and>
              (\<forall>f \<in> set dice. count_list dice f = 3)
        then twoTriplets rules
      else faceScore rules 1 (count_list dice 1) + faceScore rules 2 (count_list dice 2) +
           faceScore rules 3 (count_list dice 3) + faceScore rules 4 (count_list dice 4) +
           faceScore rules 5 (count_list dice 5) + faceScore rules 6 (count_list dice 6))"
proof -
  have tt: "(card (set dice) = 2 \<and> map snd (tally dice) ! 0 = 3 \<and> map snd (tally dice) ! 1 = 3)
        = (card (set dice) = 2 \<and> (\<forall>f \<in> set dice. count_list dice f = 3))"
    using two_values [of dice] by (auto simp: length_tally)
  show ?thesis
    unfolding calculateScore_def Let_def faces_upt length_map
    by (simp only: list_ex_Nil_iff list_ex_Cons_iff is_six_tally truthy_tally everyTwo_tally cnt_tally
          standardCounting_sum length_tally tt conj_assoc simp_thms)
qed

lemma DEFAULT_RULES_fields [simp]:
  "single1 DEFAULT_RULES = 100" "single5 DEFAULT_RULES = 50"
  "triple1 DEFAULT_RULES = 1000" "triple2 DEFAULT_RULES = 200" "triple3 DEFAULT_RULES = 300"
  "triple4 DEFAULT_RULES = 400" "triple5 DEFAULT_RULES = 500" "triple6 DEFAULT_RULES = 600"
  "straight DEFAULT_RULES = 1500" "threePairs DEFAULT_RULES = 1500"
  "fourOfAKind DEFAULT_RULES = 1000" "fiveOfAKind DEFAULT_RULES = 2000"
  "sixOfAKind DEFAULT_RULES = 3000" "sixOnes DEFAULT_RULES = 5000"
  "twoTriplets DEFAULT_RULES = 2500" "fourStraight DEFAULT_RULES = 500"
  "fiveStraight DEFAULT_RULES = 1200"
  "enableThreePairs DEFAULT_RULES = True" "enableTwoTriplets DEFAULT_RULES = True"
  "enable4Straight DEFAULT_RULES = False" "enable5Straight DEFAULT_RULES = False"
  by (simp_all add: DEFAULT_RULES_def)

lemma if_True_or: "(if c then True else r) \<longleftrightarrow> c \<or> r"
  by simp

lemma if_False_and: "(if c then False else r) \<longleftrightarrow> \<not> c \<and> r"
  by simp

lemma count_pos_iff: "0 < count_list dice f \<longleftrightarrow> f \<in> set dice"
  using count_list_0_iff [of dice f] by auto

lemma cntGe3_tally: "cntGe (tally dice) f 3 \<longleftrightarrow> 3 \<le> count_list dice f"
  using count_pos_iff [of dice f] by auto

lemma hasPossibleMoves_alt:
  "hasPossibleMoves dice rules \<longleftrightarrow>
     dice \<noteq> [] \<and>
     ((1 \<in> set dice \<or> 5 \<in> set dice) \<or>
      (3 \<le> count_list dice 1 \<or> 3 \<le> count_list dice 2 \<or> 3 \<le> count_list dice 3 \<or>
       3 \<le> count_list dice 4 \<or> 3 \<le> count_list dice 5 \<or> 3 \<le> count_list dice 6) \<or>
      card (set dice) = 6 \<or>
      (enableThreePairs rules \<and> length dice = 6 \<and> (\<forall>f \<in> set dice. count_list dice f = 2)) \<or>
      (enable5Straight rules \<and> 5 \<le> length dice \<and>
         ((1 \<in> set dice \<and> 2 \<in> set dice \<and> 3 \<in> set dice \<and> 4 \<in> set dice \<and> 5 \<in> set dice) \<or>
          (2 \<in> set dice \<and> 3 \<in> set dice \<and> 4 \<in> set dice \<and> 5 \<in> set dice \<and> 6 \<in> set dice))) \<or>
      (enable4Straight rules \<and> 4 \<le> length dice \<and>
         ((1 \<in> set dice \<and> 2 \<in> set dice \<and> 3 \<in> set dice \<and> 4 \<in> set dice) \<or>
          (2 \<in> set dice \<and> 3 \<in> set dice \<and> 4 \<in> set dice \<and> 5 \<in> set dice) \<or>
          (3 \<in> set dice \<and> 4 \<in> set dice \<and> 5 \<in> set dice \<and> 6 \<in> set dice))))"
  unfolding hasPossibleMoves_def Let_def faces_upt length_map
  by (simp only: list_ex_Nil_iff list_ex_Cons_iff cntGt_tally cntGe3_tally count_pos_iff
        truthy_tally everyTwo_tally length_tally if_True_or if_False_and simp_thms)

lemma checkFaces_tally:
  "checkFaces (tally dice) [1, 2, 3, 4, 5, 6] \<longleftrightarrow>
     ((2 \<in> set dice \<longrightarrow> 3 \<le> count_list dice 2) \<and> (3 \<in> set dice \<longrightarrow> 3 \<le> count_list dice 3) \<and>
      (4 \<in> set dice \<longrightarrow> 3 \<le> count_list dice 4) \<and> (6 \<in> set dice \<longrightarrow> 3 \<le> count_list dice 6))"
  by (simp add: Let_def count_pos_iff not_less)

lemma isScoringSelection_alt:
  "isScoringSelection dice rules \<longleftrightarrow>
     calculateScore dice rules \<noteq> 0 \<and>
     ((length dice = 6 \<and> card (set dice) = 6) \<or>
      (enableThreePairs rules \<and> length dice = 6 \<and> (\<forall>f \<in> set dice. count_list dice f = 2)) \<or>
      (enable5Straight rules \<and> length dice = 5 \<and> card (set dice) = 5 \<and>
         (6 \<notin> set dice \<or> 1 \<notin> set dice)) \<or>
      (enable4Straight rules \<and> length dice = 4 \<and> card (set dice) = 4 \<and>
         ((1 \<in> set dice \<and> 2 \<in> set dice \<and> 3 \<in> set dice \<and> 4 \<in> set dice) \<or>
          (2 \<in> set dice \<and> 3 \<in> set dice \<and> 4 \<in> set dice \<and> 5 \<in> set dice) \<or>
          (3 \<in> set dice \<and> 4 \<in> set dice \<and> 5 \<in> set dice \<and> 6 \<in> set dice))) \<or>
      ((2 \<in> set dice \<longrightarrow> 3 \<le> count_list dice 2) \<and> (3 \<in> set dice \<longrightarrow> 3 \<le> count_list dice 3) \<and>
       (4 \<in> set dice \<longrightarrow> 3 \<le> count_list dice 4) \<and> (6 \<in> set dice \<longrightarrow> 3 \<le> count_list dice 6)))"
  unfolding isScoringSelection_def Let_def faces_upt length_map
  by (simp only: checkFaces_tally truthy_tally everyTwo_tally length_tally
        if_True_or if_False_and simp_thms)

subsection \<open>Three pairs\<close>

lemma pairs_card:
  assumes "length dice = 6" and "\<forall>f \<in> set dice. count_list dice f = 2"
  shows "card (set dice) = 3"
proof -
  have "length dice = sum (count_list dice) (set dice)"
    by (simp add: sum_count_set)
  also have "\<dots> = sum (\<lambda>f. 2) (set dice)"
    using assms(2) by (intro sum.cong) auto
  finally show ?thesis using assms(1) by simp
qed

subsection \<open>Possible moves and scoring sub-selections\<close>

lemma faceScore_zero [simp]: "faceScore rules f 0 = 0"
  by (simp add: faceScore_def)

lemma faceScore_small: "n < 3 \<Longrightarrow> f \<noteq> 1 \<Longrightarrow> f \<noteq> 5 \<Longrightarrow> faceScore rules f n = 0"
  by (simp add: faceScore_def)

lemma faceScore_three:
  "faceScore rules f 3 = tripleValue rules f"
  "faceScore rules f (Suc (Suc (Suc 0))) = tripleValue rules f"
  by (simp_all add: faceScore_def)

lemma calculateScore_one: "calculateScore [1] rules = single1 rules"
  by (simp add: calculateScore_alt faceScore_def)

lemma calculateScore_five: "calculateScore [5] rules = single5 rules"
  by (simp add: calculateScore_alt faceScore_def)

lemma calculateScore_triple:
  assumes "f \<in> {2, 3, 4, 6}"
  shows "calculateScore [f, f, f] rules = tripleValue rules f"
  using assms by (auto simp: calculateScore_alt faceScore_three)

lemma subseq_count: "subseq xs ys \<Longrightarrow> count_list xs f \<le> count_list ys f"
  by (induction rule: list_emb.induct) auto

lemma subseq_set: "subseq xs ys \<Longrightarrow> set xs \<subseteq> set ys"
  by (induction rule: list_emb.induct) auto

lemma replicate_subseq: "n \<le> count_list xs x \<Longrightarrow> subseq (replicate n x) xs"
proof (induction xs arbitrary: n)
  case Nil
  then show ?case by simp
next
  case (Cons y ys)
  show ?case
  proof (cases "y = x")
    case True
    show ?thesis
    proof (cases n)
      case 0
      then show ?thesis by simp
    next
      case (Suc m)
      then have "m \<le> count_list ys x" using Cons.prems True by simp
      then have "subseq (replicate m x) ys" by (rule Cons.IH)
      then show ?thesis using True Suc by simp
    qed
  next
    case False
    then have "n \<le> count_list ys x" using Cons.prems by simp
    then have "subseq (replicate n x) ys" by (rule Cons.IH)
    then show ?thesis by (rule list_emb_Cons)
  qed
qed


lemma moves_one: "1 \<in> set dice \<Longrightarrow> hasPossibleMoves dice rules"
  unfolding hasPossibleMoves_alt by auto

lemma moves_five: "5 \<in> set dice \<Longrightarrow> hasPossibleMoves dice rules"
  unfolding hasPossibleMoves_alt by auto

lemma moves_triple:
  assumes "f \<in> {1..6}" and "3 \<le> count_list dice f"
  shows "hasPossibleMoves dice rules"
proof -
  have "dice \<noteq> []" using assms(2) by auto
  moreover have "f = 1 \<or> f = 2 \<or> f = 3 \<or> f = 4 \<or> f = 5 \<or> f = 6" using assms(1) by auto
  then have "3 \<le> count_list dice 1 \<or> 3 \<le> count_list dice 2 \<or> 3 \<le> count_list dice 3 \<or>
       3 \<le> count_list dice 4 \<or> 3 \<le> count_list dice 5 \<or> 3 \<le> count_list dice 6"
    using assms(2) by blast
  ultimately show ?thesis unfolding hasPossibleMoves_alt by blast
qed

lemma moves_pairs:
  assumes "enableThreePairs rules" and "length dice = 6"
    and "\<forall>f \<in> set dice. count_list dice f = 2"
  shows "hasPossibleMoves dice rules"
proof -
  have "dice \<noteq> []" using assms(2) by auto
  then show ?thesis unfolding hasPossibleMoves_alt using assms by blast
qed

lemma moves_cases:
  assumes "hasPossibleMoves dice rules" and faces: "set dice \<subseteq> {1..6}"
  shows "1 \<in> set dice \<or> 5 \<in> set dice \<or> (\<exists>f \<in> {2, 3, 4, 6}. 3 \<le> count_list dice f) \<or>
         (enableThreePairs rules \<and> length dice = 6 \<and> (\<forall>f \<in> set dice. count_list dice f = 2))"
proof -
  have pos: "f \<in> set dice" if "3 \<le> count_list dice f" for f
    using that count_pos_iff [of dice f] by simp
  have full: "1 \<in> set dice" if c: "card (set dice) = 6"
  proof -
    have "card {1..6::nat} = 6" by simp
    then have "set dice = {1..6}" using c faces by (intro card_subset_eq) auto
    then show ?thesis by simp
  qed
  from assms(1) [unfolded hasPossibleMoves_alt] show ?thesis
    apply (elim conjE disjE)
    using pos full by blast+
qed

lemma no_moves_no_score:
  assumes faces: "set dice \<subseteq> {1..6}" and len: "length dice \<le> 6"
    and none: "\<not> hasPossibleMoves dice rules"
    and sub: "subseq sel dice" and ne: "sel \<noteq> []"
  shows "calculateScore sel rules = 0"
proof -
  have d1: "1 \<notin> set dice" and d5: "5 \<notin> set dice"
    using none moves_one moves_five by blast+
  have small: "count_list dice f < 3" if "f \<in> {1..6}" for f
    using none moves_triple [OF that, of dice rules] by fastforce
  have pairs: "\<not> (enableThreePairs rules \<and> length dice = 6 \<and>
      (\<forall>f \<in> set dice. count_list dice f = 2))"
    using none moves_pairs by blast
  have s1: "1 \<notin> set sel" and s5: "5 \<notin> set sel"
    using subseq_set [OF sub] d1 d5 by auto
  have ssmall: "count_list sel f < 3" if "f \<in> {1..6}" for f
    using small [OF that] subseq_count [OF sub, of f] by simp
  have c1: "count_list sel 1 = 0" and c5: "count_list sel 5 = 0"
    using s1 s5 by (simp_all add: count_list_0_iff)
  have nopairs: "\<not> (enableThreePairs rules \<and> length sel = 6 \<and>
      card (set sel) = 3 \<and> (\<forall>f \<in> set sel. count_list sel f = 2))"
  proof
    assume h: "enableThreePairs rules \<and> length sel = 6 \<and>
      card (set sel) = 3 \<and> (\<forall>f \<in> set sel. count_list sel f = 2)"
    then have "length sel = length dice" using len list_emb_length [OF sub] by simp
    then have "sel = dice" using sub by (simp add: subseq_same_length)
    then show False using h pairs by simp
  qed
  have notriplets: "\<not> (\<forall>f \<in> set sel. count_list sel f = 3)"
  proof
    assume h: "\<forall>f \<in> set sel. count_list sel f = 3"
    obtain f where f: "f \<in> set sel" using ne by (cases sel) auto
    then have "f \<in> {1..6}" using subseq_set [OF sub] faces by auto
    then show False using ssmall [of f] h f by simp
  qed
  have nostraight: "card (set sel) \<noteq> 6"
  proof
    assume c: "card (set sel) = 6"
    have "set sel \<subseteq> {1..6}" using subseq_set [OF sub] faces by auto
    moreover have "card {1..6::nat} = 6" by simp
    ultimately have "set sel = {1..6}" using c by (intro card_subset_eq) auto
    then show False using s1 by auto
  qed
  have six: "count_list sel 2 \<noteq> 6" "count_list sel 3 \<noteq> 6" "count_list sel 4 \<noteq> 6"
      "count_list sel 6 \<noteq> 6"
    using ssmall [of 2] ssmall [of 3] ssmall [of 4] ssmall [of 6] by simp_all
  have zero: "faceScore rules 2 (count_list sel 2) = 0" "faceScore rules 3 (count_list sel 3) = 0"
      "faceScore rules 4 (count_list sel 4) = 0" "faceScore rules 6 (count_list sel 6) = 0"
    using ssmall [of 2] ssmall [of 3] ssmall [of 4] ssmall [of 6]
    by (simp_all add: faceScore_small)
  show ?thesis
    unfolding calculateScore_alt
    using ne c1 c5 s1 s5 nopairs notriplets nostraight six zero
    by simp blast
qed

lemma scoringSubselection_iff:
  "scoringSubselection dice rules \<longleftrightarrow>
     (\<exists>sel. subseq sel dice \<and> sel \<noteq> [] \<and> 0 < calculateScore sel rules)"
  by (auto simp: scoringSubselection_def list_ex_iff)

lemma calculateScore_pairs:
  assumes "enableThreePairs rules" and "length dice = 6"
    and "\<forall>f \<in> set dice. count_list dice f = 2"
  shows "calculateScore dice rules = threePairs rules"
proof -
  have c: "card (set dice) = 3" using assms(2,3) by (rule pairs_card)
  have ne: "dice \<noteq> []" using assms(2) by auto
  have six: "count_list dice f \<noteq> 6" for f
  proof (cases "f \<in> set dice")
    case True
    then show ?thesis using assms(3) by simp
  next
    case False
    then show ?thesis by (simp add: count_list_0_iff [THEN iffD2])
  qed
  show ?thesis unfolding calculateScore_alt using assms c ne six by simp
qed

lemma moves_give_score:
  assumes faces: "set dice \<subseteq> {1..6}"
    and moves: "hasPossibleMoves dice rules"
    and "0 < single1 rules" and "0 < single5 rules"
    and "0 < triple2 rules" and "0 < triple3 rules" and "0 < triple4 rules" and "0 < triple6 rules"
    and "enableThreePairs rules \<longrightarrow> 0 < threePairs rules"
  shows "\<exists>sel. subseq sel dice \<and> sel \<noteq> [] \<and> 0 < calculateScore sel rules"
proof -
  consider "1 \<in> set dice" | "5 \<in> set dice"
    | f where "f \<in> {2, 3, 4, 6}" "3 \<le> count_list dice f"
    | "enableThreePairs rules" "length dice = 6" "\<forall>f \<in> set dice. count_list dice f = 2"
    using moves_cases [OF moves faces] by blast
  then show ?thesis
  proof cases
    case 1
    then have "subseq [1] dice" by (simp add: subseq_singleton_left)
    moreover have "0 < calculateScore [1] rules" using assms(3) by (simp only: calculateScore_one)
    ultimately show ?thesis by blast
  next
    case 2
    then have "subseq [5] dice" by (simp add: subseq_singleton_left)
    moreover have "0 < calculateScore [5] rules" using assms(4) by (simp only: calculateScore_five)
    ultimately show ?thesis by blast
  next
    case 3
    have "subseq (replicate 3 f) dice" using 3(2) by (rule replicate_subseq)
    then have "subseq [f, f, f] dice" by (simp add: numeral_3_eq_3)
    moreover have "0 < tripleValue rules f"
      using 3(1) assms(5-8) by (auto simp: tripleValue_def)
    then have "0 < calculateScore [f, f, f] rules"
      by (simp only: calculateScore_triple [OF 3(1)])
    ultimately show ?thesis by blast
  next
    case 4
    have "dice \<noteq> []" using 4(2) by auto
    moreover have "0 < calculateScore dice rules"
      using calculateScore_pairs [OF 4] 4(1) assms(9) by simp
    ultimately show ?thesis by blast
  qed
qed

lemma mset_le_add: "mset xs \<subseteq># mset ys \<Longrightarrow> mset xs \<subseteq># add_mset y (mset ys)"
  by (simp add: subseteq_mset_def le_SucI)

lemma mset_le_drop: "M \<subseteq># add_mset x N \<Longrightarrow> \<not> x \<in># M \<Longrightarrow> M \<subseteq># N"
proof (rule mset_subset_eqI)
  fix a
  assume h: "M \<subseteq># add_mset x N" "\<not> x \<in># M"
  have le: "count M a \<le> count (add_mset x N) a" using h(1) by (rule mset_subset_eq_count)
  show "count M a \<le> count N a"
  proof (cases "a = x")
    case True
    then show ?thesis using h(2) by (simp add: not_in_iff)
  next
    case False
    then show ?thesis using le by simp
  qed
qed


lemma subseq_mset_le: "subseq xs ys \<Longrightarrow> mset xs \<subseteq># mset ys"
proof (induction rule: list_emb.induct)
  case (list_emb_Nil ys)
  then show ?case by simp
next
  case (list_emb_Cons xs ys y)
  then show ?case by (simp add: mset_le_add)
next
  case (list_emb_Cons2 x y xs ys)
  then show ?case by simp
qed

lemma submultiset_is_subseq: "M \<subseteq># mset xs \<Longrightarrow> \<exists>ys. subseq ys xs \<and> mset ys = M"
proof (induction xs arbitrary: M)
  case Nil
  then show ?case by simp
next
  case (Cons x xs)
  show ?case
  proof (cases "x \<in># M")
    case True
    then have "M - {#x#} \<subseteq># mset xs"
      using Cons.prems by (simp add: insert_subset_eq_iff subset_eq_diff_conv)
    then obtain ys where ys: "subseq ys xs" "mset ys = M - {#x#}"
      using Cons.IH by blast
    then have "subseq (x # ys) (x # xs)" "mset (x # ys) = M"
      using True by simp_all
    then show ?thesis by blast
  next
    case False
    then have "M \<subseteq># mset xs"
      using Cons.prems mset_le_drop [of M x "mset xs"] by simp
    then obtain ys where ys: "subseq ys xs" "mset ys = M"
      using Cons.IH by blast
    have "subseq ys (x # xs)" using ys(1) by (rule list_emb_Cons)
    then show ?thesis using ys(2) by blast
  qed
qed

lemma calculateScore_mset:
  assumes "mset xs = mset ys"
  shows "calculateScore xs rules = calculateScore ys rules"
proof -
  have s: "set xs = set ys" using assms by (rule mset_eq_setD)
  have l: "length xs = length ys" using assms by (rule mset_eq_length)
  have c: "count_list xs f = count_list ys f" for f
    using assms by (metis count_mset)
  have e: "xs = [] \<longleftrightarrow> ys = []" using l by auto
  show ?thesis unfolding calculateScore_alt s l c e ..
qed

lemma scoringSubselection_mset:
  "scoringSubselection dice rules \<longleftrightarrow>
     (\<exists>sel. sel \<noteq> [] \<and> mset sel \<subseteq># mset dice \<and> 0 < calculateScore sel rules)"
proof
  assume "scoringSubselection dice rules"
  then obtain sel where "subseq sel dice" "sel \<noteq> []" "0 < calculateScore sel rules"
    by (auto simp: scoringSubselection_iff)
  then show "\<exists>sel. sel \<noteq> [] \<and> mset sel \<subseteq># mset dice \<and> 0 < calculateScore sel rules"
    using subseq_mset_le by blast
next
  assume "\<exists>sel. sel \<noteq> [] \<and> mset sel \<subseteq># mset dice \<and> 0 < calculateScore sel rules"
  then obtain sel where sel: "sel \<noteq> []" "mset sel \<subseteq># mset dice" "0 < calculateScore sel rules"
    by blast
  obtain ys where ys: "subseq ys dice" "mset ys = mset sel"
    using submultiset_is_subseq [OF sel(2)] by blast
  have "ys \<noteq> []" using ys(2) sel(1) by auto
  moreover have "0 < calculateScore ys rules"
    using calculateScore_mset [OF ys(2)] sel(3) by simp
  ultimately show "scoringSubselection dice rules"
    using ys(1) by (auto simp: scoringSubselection_iff)
qed

lemma hasPossibleMoves_empty: "\<not> hasPossibleMoves [] rules"
  by (simp add: hasPossibleMoves_def)

section \<open>Claims about the scoring engine\<close>

lemma faceScore_by_count:
  "faceScore rules f 3 = tripleValue rules f"
  "faceScore rules f 4 =
     (if fourOfAKind rules \<noteq> 0 then fourOfAKind rules else tripleValue rules f * 2) +
     (if f = 1 \<and> fourOfAKind rules < 1100 then tripleValue rules f + single1 rules
      else fourOfAKind rules)"
  "faceScore rules f 5 = 0"
  "faceScore rules f 6 = 0"
  by (simp_all add: faceScore_def)

text \<open>
  With the score of five 1s at 0, the server rejects that selection as invalid.
\<close>

lemma five_ones_rejected: "\<not> isScoringSelection [1, 1, 1, 1, 1] DEFAULT_RULES"
  by (simp add: isScoringSelection_alt calculateScore_alt faceScore_def tripleValue_def)

text \<open>
  Claim C1 fails on the code. In the loop over the faces, the inner
  \<^verbatim>\<open>if (face === 1 && ...) ... else { if (count === 4) ... else if (count === 5) ...
  else if (count === 6) ... }\<close> is nested inside the branch \<^verbatim>\<open>else if (count === 4)\<close>,
  after that branch has already added \<^verbatim>\<open>rules.fourOfAKind || (tripleValue * 2)\<close>.
  So a count of 5 adds nothing and a count of 4 is added twice. At the default rules a
  selection of exactly five 1s scores 0, not the five-of-a-kind value 2000; four 2s
  score 2000, not the four-of-a-kind value 1000; four 1s score 2100, not the larger of
  1000 and 1000 + 100.
\<close>

theorem C1_five_of_a_kind_scores_nothing:
  "calculateScore [1, 1, 1, 1, 1] DEFAULT_RULES = 0 \<and> fiveOfAKind DEFAULT_RULES = 2000 \<and>
   calculateScore [2, 2, 2, 2] DEFAULT_RULES = 2000 \<and> fourOfAKind DEFAULT_RULES = 1000 \<and>
   calculateScore [1, 1, 1, 1] DEFAULT_RULES = 2100"
  by (simp add: calculateScore_alt faceScore_def tripleValue_def)

text \<open>
  Claim C2, amended. For a roll of at most six dice with faces 1 to 6, and a rule
  configuration whose values for a single 1, a single 5 and a triple of 2s, 3s, 4s and
  6s are positive, and whose three-pairs value is positive when three pairs are
  enabled: \<^verbatim>\<open>hasPossibleMoves\<close> returns true exactly when some non-empty
  sub-selection of the roll has a positive score under \<^verbatim>\<open>calculateScore\<close>. It
  returns false for the empty roll whatever the rules.
\<close>

theorem C2_moves_iff_scoring_subselection:
  assumes "set dice \<subseteq> {1..6}" and "length dice \<le> 6"
    and "0 < single1 rules" and "0 < single5 rules"
    and "0 < triple2 rules" and "0 < triple3 rules" and "0 < triple4 rules" and "0 < triple6 rules"
    and "enableThreePairs rules \<longrightarrow> 0 < threePairs rules"
  shows "(hasPossibleMoves dice rules \<longleftrightarrow> scoringSubselection dice rules) \<and>
         \<not> hasPossibleMoves [] rules"
proof -
  have "scoringSubselection dice rules" if "hasPossibleMoves dice rules"
    using moves_give_score [OF assms(1) that assms(3-9)]
    by (simp add: scoringSubselection_iff)
  moreover have "hasPossibleMoves dice rules" if h: "scoringSubselection dice rules"
  proof (rule ccontr)
    assume n: "\<not> hasPossibleMoves dice rules"
    obtain sel where "subseq sel dice" "sel \<noteq> []" "0 < calculateScore sel rules"
      using h by (auto simp: scoringSubselection_iff)
    then show False using no_moves_no_score [OF assms(1,2) n] by simp
  qed
  moreover have "\<not> hasPossibleMoves [] rules" by (simp add: hasPossibleMoves_def)
  ultimately show ?thesis by blast
qed

text \<open>
  The claim as stated, for every rule configuration, fails: with the value of a single
  5 set to 0 a lone 5 is a possible move, and no sub-selection of it scores.
\<close>

theorem C2_counterexample:
  "hasPossibleMoves [5] (DEFAULT_RULES\<lparr>single5 := 0\<rparr>) \<and>
   \<not> scoringSubselection [5] (DEFAULT_RULES\<lparr>single5 := 0\<rparr>)"
  by (simp add: moves_five scoringSubselection_def calculateScore_five)

theorem C2_witness:
  "hasPossibleMoves [2, 3, 3, 3, 6] DEFAULT_RULES \<and> scoringSubselection [2, 3, 3, 3, 6] DEFAULT_RULES \<and>
   \<not> hasPossibleMoves [2, 3, 4, 6, 6, 3] DEFAULT_RULES \<and>
   \<not> scoringSubselection [2, 3, 4, 6, 6, 3] DEFAULT_RULES"
  using C2_moves_iff_scoring_subselection [of "[2, 3, 3, 3, 6]" DEFAULT_RULES]
    C2_moves_iff_scoring_subselection [of "[2, 3, 4, 6, 6, 3]" DEFAULT_RULES]
  by (simp add: hasPossibleMoves_alt card_insert_if)

text \<open>
  Five dice of one face beside a 5: the five add nothing to the score.
\<close>

lemma five_and_a_five:
  assumes "f \<in> {1, 2, 3, 4, 6}"
  shows "calculateScore [f, f, f, f, f, 5] rules = single5 rules"
    and "calculateScore [f, f, f, f, 5] rules = faceScore rules f 4 + single5 rules"
    and "isScoringSelection [f, f, f, f, f, 5] rules \<longleftrightarrow> single5 rules \<noteq> 0"
proof -
  have f: "f = 1 \<or> f = 2 \<or> f = 3 \<or> f = 4 \<or> f = 6" using assms by simp
  have n: "Suc (Suc (Suc (Suc 0))) = 4" "Suc (Suc (Suc (Suc (Suc 0)))) = 5"
    by simp_all
  have five: "faceScore rules g 5 = 0" "faceScore rules 5 (Suc 0) = single5 rules"
      "faceScore rules 5 1 = single5 rules" for g
    by (simp_all add: faceScore_def)
  show a: "calculateScore [f, f, f, f, f, 5] rules = single5 rules"
    using f by (elim disjE) (simp_all add: calculateScore_alt n five card_insert_if)
  show "calculateScore [f, f, f, f, 5] rules = faceScore rules f 4 + single5 rules"
    using f by (elim disjE) (simp_all add: calculateScore_alt n five card_insert_if)
  show "isScoringSelection [f, f, f, f, f, 5] rules \<longleftrightarrow> single5 rules \<noteq> 0"
    unfolding isScoringSelection_alt a
    using f by (elim disjE) (simp_all add: card_insert_if)
qed

text \<open>
  The examples of the specification: [1,2,2,2] is complete and accepted, [2,2] and [3]
  are neither.
\<close>

lemma complete_examples:
  "completeSelection [1, 2, 2, 2] DEFAULT_RULES" "isScoringSelection [1, 2, 2, 2] DEFAULT_RULES"
  "\<not> completeSelection [2, 2] DEFAULT_RULES" "\<not> isScoringSelection [2, 2] DEFAULT_RULES"
  "\<not> completeSelection [3] DEFAULT_RULES" "\<not> isScoringSelection [3] DEFAULT_RULES"
  by (simp_all add: completeSelection_def everyDieContributes_def withoutDie_def
        isScoringSelection_alt calculateScore_alt faceScore_def tripleValue_def upt_rec)

text \<open>
  Claim C3 fails on the code. \<^verbatim>\<open>isScoringSelection\<close> lets every 1 and 5 pass and
  every other face with a count of 3 or more, taking for granted that
  \<^verbatim>\<open>calculateScore\<close> scores them; but a count of 5 adds nothing to the score (the
  misplaced braces of claim C1). Five dice of one face 1, 2, 3, 4 or 6 together with a
  5 are accepted whenever a single 5 has a positive value, although their score is the
  score of the 5 alone and is not lowered by taking one of the five away: the five dice
  ride along without contributing.
\<close>

theorem C3_dead_dice_accepted:
  assumes "f \<in> {1, 2, 3, 4, 6}" and "0 < single5 rules"
  shows "isScoringSelection [f, f, f, f, f, 5] rules \<and>
         calculateScore [f, f, f, f, f, 5] rules = calculateScore [5] rules \<and>
         calculateScore [f, f, f, f, f, 5] rules \<le> calculateScore [f, f, f, f, 5] rules \<and>
         \<not> completeSelection [f, f, f, f, f, 5] rules"
proof -
  note e = five_and_a_five [OF assms(1), of rules]
  have sel: "isScoringSelection [f, f, f, f, f, 5] rules" using e(3) assms(2) by simp
  have same: "calculateScore [f, f, f, f, f, 5] rules = calculateScore [5] rules"
    by (simp only: e(1) calculateScore_five)
  have le: "calculateScore [f, f, f, f, f, 5] rules \<le> calculateScore [f, f, f, f, 5] rules"
    by (simp add: e(1) e(2))
  have w: "withoutDie 0 [f, f, f, f, f, 5] = [f, f, f, f, 5]"
    by (simp add: withoutDie_def)
  have "\<not> everyDieContributes [f, f, f, f, f, 5] rules"
  proof
    assume "everyDieContributes [f, f, f, f, f, 5] rules"
    then have "calculateScore (withoutDie 0 [f, f, f, f, f, 5]) rules
        < calculateScore [f, f, f, f, f, 5] rules"
      by (simp add: everyDieContributes_def list_all_iff)
    then show False using le unfolding w by simp
  qed
  then have "\<not> completeSelection [f, f, f, f, f, 5] rules"
    by (simp add: completeSelection_def)
  with sel same le show ?thesis by simp
qed

theorem C3_witness:
  "isScoringSelection [2, 2, 2, 2, 2, 5] DEFAULT_RULES \<and>
   calculateScore [2, 2, 2, 2, 2, 5] DEFAULT_RULES = 50 \<and>
   calculateScore [5] DEFAULT_RULES = 50 \<and>
   calculateScore [2, 2, 2, 2, 5] DEFAULT_RULES = 2050 \<and>
   \<not> completeSelection [2, 2, 2, 2, 2, 5] DEFAULT_RULES \<and>
   isScoringSelection [1, 1, 1, 1, 1, 5] DEFAULT_RULES \<and>
   calculateScore [1, 1, 1, 1, 1, 5] DEFAULT_RULES = 50 \<and>
   \<not> completeSelection [1, 1, 1, 1, 1, 5] DEFAULT_RULES"
proof -
  have h: "(2::nat) \<in> {1, 2, 3, 4, 6}" "(1::nat) \<in> {1, 2, 3, 4, 6}"
      "0 < single5 DEFAULT_RULES"
    by simp_all
  note t2 = C3_dead_dice_accepted [OF h(1) h(3)]
  note t1 = C3_dead_dice_accepted [OF h(2) h(3)]
  have v: "calculateScore [5] DEFAULT_RULES = 50"
      "calculateScore [2, 2, 2, 2, 5] DEFAULT_RULES = 2050"
    by (simp_all add: calculateScore_alt faceScore_def tripleValue_def)
  show ?thesis using t1 t2 v by simp
qed

section \<open>Properties of the match state machine\<close>

subsection \<open>Turn advance and banking, field by field\<close>

lemma nextTurn_fields:
  "currentPlayerIndex (snd (nextTurn s)) = (currentPlayerIndex s + 1) mod 2 \<and>
   roundAccumulatedScore (snd (nextTurn s)) = 0 \<and>
   diceCountToRoll (snd (nextTurn s)) = 6 \<and>
   currentDice (snd (nextTurn s)) = [] \<and>
   players (snd (nextTurn s)) = players s \<and>
   isFinalRound (snd (nextTurn s)) = isFinalRound s \<and>
   finalRoundTriggeredBy (snd (nextTurn s)) = finalRoundTriggeredBy s"
  by (simp add: nextTurn_def endGame_def resetRound_def Let_def)

lemma nextTurn_no_throw:
  "2 \<le> length (players s) \<Longrightarrow> fst (nextTurn s) = Undefined"
  by (simp add: nextTurn_def endGame_def resetRound_def Let_def)

lemma checkWin_fields:
  "currentPlayerIndex (snd (checkWinCondition s)) = currentPlayerIndex s \<and>
   roundAccumulatedScore (snd (checkWinCondition s)) = roundAccumulatedScore s \<and>
   diceCountToRoll (snd (checkWinCondition s)) = diceCountToRoll s \<and>
   currentDice (snd (checkWinCondition s)) = currentDice s \<and>
   players (snd (checkWinCondition s)) = players s \<and>
   gameStatus (snd (checkWinCondition s)) = gameStatus s"
  by (simp add: checkWinCondition_def split: option.splits)

lemma checkWin_no_throw:
  "currentPlayerIndex s < length (players s) \<Longrightarrow> fst (checkWinCondition s) = Undefined"
  by (simp add: checkWinCondition_def getCurrentPlayer_def)

lemma addToCurrent_fields:
  "currentPlayerIndex (addToCurrent s) = currentPlayerIndex s \<and>
   gameStatus (addToCurrent s) = gameStatus s \<and>
   isFinalRound (addToCurrent s) = isFinalRound s \<and>
   finalRoundTriggeredBy (addToCurrent s) = finalRoundTriggeredBy s \<and>
   length (players (addToCurrent s)) = length (players s)"
  by (simp add: addToCurrent_def)

lemma commitBank_eq:
  assumes "gameStatus s = Playing" and "currentPlayerIndex s < length (players s)"
    and "length (players s) = 2"
  shows "commitBank k s =
           (Success (), snd (nextTurn (snd (checkWinCondition
              (addToCurrent (s\<lparr>roundAccumulatedScore := roundAccumulatedScore s + k\<rparr>))))))"
proof -
  let ?s2 = "addToCurrent (s\<lparr>roundAccumulatedScore := roundAccumulatedScore s + k\<rparr>)"
  have a: "currentPlayerIndex ?s2 < length (players ?s2)" "gameStatus ?s2 = Playing"
         "length (players ?s2) = 2"
    using assms by (simp_all add: addToCurrent_def)
  obtain o3 s3 where c: "checkWinCondition ?s2 = (o3, s3)" by (cases "checkWinCondition ?s2")
  have o3: "o3 = Undefined" using checkWin_no_throw[OF a(1)] c by simp
  have s3: "gameStatus s3 = Playing" "length (players s3) = 2"
    using checkWin_fields[of ?s2] c a by simp_all
  obtain o4 s4 where n: "nextTurn s3 = (o4, s4)" by (cases "nextTurn s3")
  have o4: "o4 = Undefined" using nextTurn_no_throw[of s3] s3 n by simp
  show ?thesis
    using o3 o4 s3 by (simp add: commitBank_def Let_def c n)
qed

lemma bank_no_selection:
  assumes "gameStatus s = Playing" and "getCurrentPlayer s = Some p" and "playerId p = pid"
    and "filter selected (currentDice s) = []"
  shows "bank pid s =
           (if currentDice s \<noteq> [] \<and> roundAccumulatedScore s = 0
            then (Error CannotBankZero, s) else commitBank 0 s)"
  using assms by (simp add: bank_def)

lemma commitBank_fields:
  assumes "gameStatus s = Playing" and "currentPlayerIndex s < length (players s)"
    and "length (players s) = 2"
  shows "fst (commitBank k s) = Success () \<and>
         players (snd (commitBank k s)) =
           (players s)[currentPlayerIndex s := (players s ! currentPlayerIndex s)
              \<lparr>score := score (players s ! currentPlayerIndex s) + (roundAccumulatedScore s + k)\<rparr>] \<and>
         currentPlayerIndex (snd (commitBank k s)) = (currentPlayerIndex s + 1) mod 2 \<and>
         roundAccumulatedScore (snd (commitBank k s)) = 0 \<and>
         diceCountToRoll (snd (commitBank k s)) = 6 \<and>
         currentDice (snd (commitBank k s)) = []"
  by (simp add: commitBank_eq[OF assms] nextTurn_fields checkWin_fields)
     (simp add: addToCurrent_def)

lemma twoSeated_eq:
  "twoSeated = \<lparr>roomCode = ''Table 1'',
      players =
        [\<lparr>playerId = ''s1'', name = ''Ann'', score = 0, connected = True\<rparr>,
         \<lparr>playerId = ''s2'', name = ''Bob'', score = 0, connected = True\<rparr>],
      currentPlayerIndex = 0, roundAccumulatedScore = 0, diceCountToRoll = 6,
      currentDice = [], isFinalRound = False, finalRoundTriggeredBy = None,
      gameStatus = Playing, winner = NoWinner\<rparr>"
  by (simp add: twoSeated_def join_game_def new_GameState_def addPlayer_def start_def
        resetRound_def)

lemma reachable_twoSeated: "reachable twoSeated"
  unfolding twoSeated_def by (intro reachable.intros)

lemma score_single_one:
  "calculateScore [1] DEFAULT_RULES = 100"
  "calculateScore [Suc 0] DEFAULT_RULES = 100"
  "isScoringSelection [1] DEFAULT_RULES"
  "isScoringSelection [Suc 0] DEFAULT_RULES"
  using calculateScore_one [of DEFAULT_RULES]
  by (simp_all add: isScoringSelection_alt)

lemma closingLap_eq:
  "closingLap =
     twoSeated\<lparr>players :=
         [\<lparr>playerId = ''s1'', name = ''Ann'', score = 10000, connected = True\<rparr>,
          \<lparr>playerId = ''s2'', name = ''Bob'', score = 4000, connected = True\<rparr>],
       currentPlayerIndex := 1, isFinalRound := True, finalRoundTriggeredBy := Some 0\<rparr>"
  by (simp add: closingLap_def lastSelection_def twoSeated_eq bank_def commitBank_def
        getCurrentPlayer_def addToCurrent_def checkWinCondition_def nextTurn_def
        resetRound_def score_single_one)

lemma finishedGame_eq:
  "finishedGame =
     twoSeated\<lparr>players :=
         [\<lparr>playerId = ''s1'', name = ''Ann'', score = 10000, connected = True\<rparr>,
          \<lparr>playerId = ''s2'', name = ''Bob'', score = 4000, connected = True\<rparr>],
       isFinalRound := True, finalRoundTriggeredBy := Some 0,
       gameStatus := Finished, winner := PlayerAt 0\<rparr>"
  by (simp add: finishedGame_def closingLap_eq twoSeated_eq bank_def commitBank_def
        getCurrentPlayer_def addToCurrent_def checkWinCondition_def nextTurn_def
        resetRound_def endGame_def)

lemma restart_fields:
  "fst (restart s) \<longleftrightarrow> gameStatus s = Finished"
  "gameStatus s = Finished \<Longrightarrow>
     map score (players (snd (restart s))) = replicate (length (players s)) 0 \<and>
     currentPlayerIndex (snd (restart s)) = 0 \<and>
     roundAccumulatedScore (snd (restart s)) = 0 \<and>
     diceCountToRoll (snd (restart s)) = 6 \<and>
     currentDice (snd (restart s)) = [] \<and>
     isFinalRound (snd (restart s)) = False \<and>
     winner (snd (restart s)) = NoWinner \<and>
     gameStatus (snd (restart s)) = Playing \<and>
     finalRoundTriggeredBy (snd (restart s)) = finalRoundTriggeredBy s"
  "gameStatus s \<noteq> Finished \<Longrightarrow> snd (restart s) = s"
  by (simp_all add: restart_def resetRound_def map_replicate_const comp_def)

subsection \<open>Final-round bookkeeping\<close>

lemma checkWin_final:
  assumes "currentPlayerIndex s < length (players s)"
  shows "isFinalRound (snd (checkWinCondition s)) =
           (isFinalRound s \<or> 10000 \<le> score (players s ! currentPlayerIndex s)) \<and>
         finalRoundTriggeredBy (snd (checkWinCondition s)) =
           (if 10000 \<le> score (players s ! currentPlayerIndex s) \<and> \<not> isFinalRound s
            then Some (currentPlayerIndex s) else finalRoundTriggeredBy s)"
  using assms by (auto simp: checkWinCondition_def getCurrentPlayer_def)

lemma checkWin_keeps_final:
  "isFinalRound s \<Longrightarrow>
   isFinalRound (snd (checkWinCondition s)) \<and>
   finalRoundTriggeredBy (snd (checkWinCondition s)) = finalRoundTriggeredBy s"
  by (simp add: checkWinCondition_def split: option.splits)

lemma nextTurn_status:
  assumes "2 \<le> length (players s)"
  shows "gameStatus (snd (nextTurn s)) =
           (if isFinalRound s \<and>
               finalRoundTriggeredBy s = Some ((currentPlayerIndex s + 1) mod 2)
            then Finished else gameStatus s) \<and>
         winner (snd (nextTurn s)) =
           (if isFinalRound s \<and>
               finalRoundTriggeredBy s = Some ((currentPlayerIndex s + 1) mod 2)
            then (if score (players s ! 1) < score (players s ! 0) then PlayerAt 0
                  else if score (players s ! 0) < score (players s ! 1) then PlayerAt 1
                  else Tie)
            else winner s)"
  using assms by (auto simp: nextTurn_def endGame_def resetRound_def Let_def)

lemma commitBank_cases:
  "snd (commitBank k s) =
     snd (checkWinCondition
            (addToCurrent (s\<lparr>roundAccumulatedScore := roundAccumulatedScore s + k\<rparr>))) \<or>
   snd (commitBank k s) =
     snd (nextTurn (snd (checkWinCondition
            (addToCurrent (s\<lparr>roundAccumulatedScore := roundAccumulatedScore s + k\<rparr>)))))"
  by (simp add: commitBank_def Let_def split: prod.splits outcome.splits)

lemma bank_cases:
  "snd (bank pid s) = s \<or>
   (\<exists>k. gameStatus s = Playing \<and> currentPlayerIndex s < length (players s) \<and>
        bank pid s = commitBank k s)"
  by (auto simp: bank_def Let_def getCurrentPlayer_def split: option.splits if_splits)

lemma bank_success:
  assumes "succeeded (fst (bank pid s))"
  shows "\<exists>k. gameStatus s = Playing \<and> currentPlayerIndex s < length (players s) \<and>
             bank pid s = commitBank k s"
  using assms by (auto simp: bank_def Let_def getCurrentPlayer_def split: option.splits if_splits)

lemma roll_keeps:
  "isFinalRound (snd (roll rng pid s)) = isFinalRound s \<and>
   finalRoundTriggeredBy (snd (roll rng pid s)) = finalRoundTriggeredBy s \<and>
   gameStatus (snd (roll rng pid s)) = gameStatus s \<and>
   players (snd (roll rng pid s)) = players s"
  by (simp add: roll_def performRoll_def Let_def split: option.splits)

lemma toggle_keeps:
  "isFinalRound (snd (toggleSelection pid i s)) = isFinalRound s \<and>
   finalRoundTriggeredBy (snd (toggleSelection pid i s)) = finalRoundTriggeredBy s \<and>
   gameStatus (snd (toggleSelection pid i s)) = gameStatus s \<and>
   players (snd (toggleSelection pid i s)) = players s"
  by (simp add: toggleSelection_def split: option.splits)

lemma farkle_keeps:
  "isFinalRound (snd (farkle s)) = isFinalRound s \<and>
   finalRoundTriggeredBy (snd (farkle s)) = finalRoundTriggeredBy s"
  using nextTurn_fields [of "s\<lparr>roundAccumulatedScore := 0\<rparr>"] by (simp add: farkle_def)

lemma commitBank_keeps_final:
  assumes "isFinalRound s"
  shows "isFinalRound (snd (commitBank k s)) \<and>
         finalRoundTriggeredBy (snd (commitBank k s)) = finalRoundTriggeredBy s"
proof -
  let ?s2 = "addToCurrent (s\<lparr>roundAccumulatedScore := roundAccumulatedScore s + k\<rparr>)"
  have f2: "isFinalRound ?s2" "finalRoundTriggeredBy ?s2 = finalRoundTriggeredBy s"
    using assms by (simp_all add: addToCurrent_def)
  note c = checkWin_keeps_final [OF f2(1)]
  note n = nextTurn_fields [of "snd (checkWinCondition ?s2)"]
  show ?thesis using commitBank_cases [of k s] c n f2(2) by auto
qed

lemma bank_keeps_final:
  assumes "isFinalRound s"
  shows "isFinalRound (snd (bank pid s)) \<and>
         finalRoundTriggeredBy (snd (bank pid s)) = finalRoundTriggeredBy s"
  using bank_cases [of pid s] commitBank_keeps_final [OF assms] assms by auto

lemma bank_starts_final_round:
  assumes st: "gameStatus s = Playing" and cur: "getCurrentPlayer s = Some p"
    and "playerId p = pid" and two: "length (players s) = 2"
    and ok: "succeeded (fst (bank pid s))" and nf: "\<not> isFinalRound s"
    and win: "10000 \<le> score (players (snd (bank pid s)) ! currentPlayerIndex s)"
  shows "isFinalRound (snd (bank pid s)) \<and>
         finalRoundTriggeredBy (snd (bank pid s)) = Some (currentPlayerIndex s) \<and>
         gameStatus (snd (bank pid s)) = Playing \<and>
         currentPlayerIndex (snd (bank pid s)) = (currentPlayerIndex s + 1) mod 2"
proof -
  obtain k where k: "bank pid s = commitBank k s" and lt: "currentPlayerIndex s < length (players s)"
    using bank_success [OF ok] by blast
  let ?s2 = "addToCurrent (s\<lparr>roundAccumulatedScore := roundAccumulatedScore s + k\<rparr>)"
  let ?s3 = "snd (checkWinCondition ?s2)"
  have eq: "snd (bank pid s) = snd (nextTurn ?s3)"
    using commitBank_eq [OF st lt two, of k] k by simp
  have s2: "currentPlayerIndex ?s2 = currentPlayerIndex s" "\<not> isFinalRound ?s2"
      "length (players ?s2) = 2" "gameStatus ?s2 = Playing"
    using nf two st by (simp_all add: addToCurrent_def)
  have lt2: "currentPlayerIndex ?s2 < length (players ?s2)" using lt two s2(1,3) by simp
  have pl: "players (snd (bank pid s)) = players ?s2"
    using eq nextTurn_fields [of ?s3] checkWin_fields [of ?s2] by simp
  have w2: "10000 \<le> score (players ?s2 ! currentPlayerIndex ?s2)"
    using win pl s2(1) by simp
  have f3: "isFinalRound ?s3" "finalRoundTriggeredBy ?s3 = Some (currentPlayerIndex s)"
    using checkWin_final [OF lt2] w2 s2(1,2) by simp_all
  have c3: "currentPlayerIndex ?s3 = currentPlayerIndex s" "gameStatus ?s3 = Playing"
      "2 \<le> length (players ?s3)"
    using checkWin_fields [of ?s2] s2 by simp_all
  have ne: "(currentPlayerIndex s + 1) mod 2 \<noteq> currentPlayerIndex s" by presburger
  have "gameStatus (snd (nextTurn ?s3)) = Playing"
    using nextTurn_status [OF c3(3)] f3 c3(1,2) ne by auto
  then show ?thesis
    using eq nextTurn_fields [of ?s3] f3 c3(1) by simp
qed

lemma bank_finishes_iff:
  assumes st: "gameStatus s = Playing" and two: "length (players s) = 2"
    and ok: "succeeded (fst (bank pid s))"
  shows "(gameStatus (snd (bank pid s)) = Finished \<longleftrightarrow>
            isFinalRound s \<and>
            finalRoundTriggeredBy s = Some ((currentPlayerIndex s + 1) mod 2)) \<and>
         (gameStatus (snd (bank pid s)) = Finished \<longrightarrow>
            winner (snd (bank pid s)) =
              (if score (players (snd (bank pid s)) ! 1) < score (players (snd (bank pid s)) ! 0)
               then PlayerAt 0
               else if score (players (snd (bank pid s)) ! 0) < score (players (snd (bank pid s)) ! 1)
               then PlayerAt 1 else Tie))"
proof -
  obtain k where k: "bank pid s = commitBank k s" and lt: "currentPlayerIndex s < length (players s)"
    using bank_success [OF ok] by blast
  let ?s2 = "addToCurrent (s\<lparr>roundAccumulatedScore := roundAccumulatedScore s + k\<rparr>)"
  let ?s3 = "snd (checkWinCondition ?s2)"
  have eq: "snd (bank pid s) = snd (nextTurn ?s3)"
    using commitBank_eq [OF st lt two, of k] k by simp
  have s2: "currentPlayerIndex ?s2 = currentPlayerIndex s" "isFinalRound ?s2 = isFinalRound s"
      "finalRoundTriggeredBy ?s2 = finalRoundTriggeredBy s"
      "length (players ?s2) = 2" "gameStatus ?s2 = Playing"
    using two st by (simp_all add: addToCurrent_def)
  have lt2: "currentPlayerIndex ?s2 < length (players ?s2)" using lt two s2(1,4) by simp
  have c3: "currentPlayerIndex ?s3 = currentPlayerIndex s" "gameStatus ?s3 = Playing"
      "2 \<le> length (players ?s3)"
    using checkWin_fields [of ?s2] s2 by simp_all
  have ne: "(currentPlayerIndex s + 1) mod 2 \<noteq> currentPlayerIndex s" by presburger
  have f3: "isFinalRound ?s3 \<and>
        finalRoundTriggeredBy ?s3 = Some ((currentPlayerIndex s + 1) mod 2) \<longleftrightarrow>
      isFinalRound s \<and> finalRoundTriggeredBy s = Some ((currentPlayerIndex s + 1) mod 2)"
    using checkWin_final [OF lt2] s2(1-3) ne by auto
  have pl: "players (snd (nextTurn ?s3)) = players ?s3"
    using nextTurn_fields [of ?s3] by simp
  show ?thesis
    unfolding eq pl using nextTurn_status [OF c3(3)] f3 c3(1,2) by auto
qed

lemma farkle_finishes_iff:
  assumes st: "gameStatus s = Playing" and two: "length (players s) = 2"
  shows "gameStatus (snd (farkle s)) = Finished \<longleftrightarrow>
           isFinalRound s \<and> finalRoundTriggeredBy s = Some ((currentPlayerIndex s + 1) mod 2)"
  using nextTurn_status [of "s\<lparr>roundAccumulatedScore := 0\<rparr>"] st two
  by (auto simp: farkle_def)

subsection \<open>Bounds on the dice\<close>

lemma length_flipFirst [simp]: "length (flipFirst i ds) = length ds"
  by (induction ds) auto

lemma diceInv_new: "diceInv (new_GameState code)"
  by (simp add: diceInv_def new_GameState_def)

lemma diceInv_fields:
  "diceCountToRoll t = diceCountToRoll s \<Longrightarrow> currentDice t = currentDice s \<Longrightarrow>
   diceInv s \<Longrightarrow> diceInv t"
  by (simp add: diceInv_def)

lemma diceInv_reset: "diceCountToRoll t = 6 \<Longrightarrow> currentDice t = [] \<Longrightarrow> diceInv t"
  by (simp add: diceInv_def)

lemma join_dice:
  "(diceCountToRoll (snd (join_game sid nm s)) = diceCountToRoll s \<and>
    currentDice (snd (join_game sid nm s)) = currentDice s) \<or>
   (diceCountToRoll (snd (join_game sid nm s)) = 6 \<and>
    currentDice (snd (join_game sid nm s)) = [])"
  by (simp add: join_game_def addPlayer_def start_def resetRound_def Let_def
        split: option.splits prod.splits)

lemma leave_dice:
  "diceCountToRoll (leave_game sid s) = diceCountToRoll s \<and>
   currentDice (leave_game sid s) = currentDice s"
  by (simp add: leave_game_def Let_def split: option.splits)

lemma toggle_dice:
  "diceCountToRoll (snd (toggleSelection pid i s)) = diceCountToRoll s \<and>
   length (currentDice (snd (toggleSelection pid i s))) = length (currentDice s)"
  by (simp add: toggleSelection_def split: option.splits)

lemma restart_dice:
  "(diceCountToRoll (snd (restart s)) = diceCountToRoll s \<and>
    currentDice (snd (restart s)) = currentDice s) \<or>
   (diceCountToRoll (snd (restart s)) = 6 \<and> currentDice (snd (restart s)) = [])"
  by (simp add: restart_def resetRound_def)

lemma commitBank_dice:
  "(diceCountToRoll (snd (commitBank k s)) = diceCountToRoll s \<and>
    currentDice (snd (commitBank k s)) = currentDice s) \<or>
   (diceCountToRoll (snd (commitBank k s)) = 6 \<and> currentDice (snd (commitBank k s)) = [])"
proof -
  let ?s2 = "addToCurrent (s\<lparr>roundAccumulatedScore := roundAccumulatedScore s + k\<rparr>)"
  have "diceCountToRoll ?s2 = diceCountToRoll s" "currentDice ?s2 = currentDice s"
    by (simp_all add: addToCurrent_def)
  then show ?thesis
    using commitBank_cases [of k s] checkWin_fields [of ?s2]
      nextTurn_fields [of "snd (checkWinCondition ?s2)"] by auto
qed

lemma bank_dice:
  "(diceCountToRoll (snd (bank pid s)) = diceCountToRoll s \<and>
    currentDice (snd (bank pid s)) = currentDice s) \<or>
   (diceCountToRoll (snd (bank pid s)) = 6 \<and> currentDice (snd (bank pid s)) = [])"
proof -
  from bank_cases [of pid s] show ?thesis
  proof
    assume "snd (bank pid s) = s"
    then show ?thesis by simp
  next
    assume "\<exists>k. gameStatus s = Playing \<and> currentPlayerIndex s < length (players s) \<and>
        bank pid s = commitBank k s"
    then obtain k where "bank pid s = commitBank k s" by blast
    then show ?thesis using commitBank_dice [of k s] by simp
  qed
qed

lemma performRoll_dice:
  "diceCountToRoll (snd (performRoll rng k s)) = diceCountToRoll s \<and>
   length (currentDice (snd (performRoll rng k s))) = diceCountToRoll s \<and>
   succeeded (fst (performRoll rng k s))"
  by (simp add: performRoll_def Let_def)

text \<open>What roll does to the number of dice, case by case.\<close>

lemma roll_dice:
  "(roll rng pid s = (fst (roll rng pid s), s) \<and> \<not> succeeded (fst (roll rng pid s))) \<or>
   (succeeded (fst (roll rng pid s)) \<and>
    length (currentDice (snd (roll rng pid s))) = diceCountToRoll (snd (roll rng pid s)) \<and>
    diceCountToRoll (snd (roll rng pid s)) =
      (if currentDice s = [] then 6
       else if length (currentDice s) - length (filter selected (currentDice s)) = 0 then 6
       else length (currentDice s) - length (filter selected (currentDice s))))"
  by (simp add: roll_def performRoll_def Let_def split: option.splits)

lemma diceInv_roll:
  assumes "diceInv s"
  shows "diceInv (snd (roll rng pid s))"
proof -
  have "length (currentDice s) - length (filter selected (currentDice s)) \<le> 6"
    using assms unfolding diceInv_def by linarith
  then show ?thesis
    using roll_dice [of rng pid s] assms
    by (cases "roll rng pid s") (auto simp: diceInv_def split: if_splits)
qed

lemma diceInv_reachable: "reachable s \<Longrightarrow> diceInv s"
proof (induction rule: reachable.induct)
  case (r_new code)
  show ?case by (rule diceInv_new)
next
  case (r_join s sid nm)
  then show ?case using join_dice [of sid nm s] by (auto intro: diceInv_fields diceInv_reset)
next
  case (r_leave s sid)
  then show ?case using leave_dice [of sid s] by (auto intro: diceInv_fields)
next
  case (r_roll s rng pid)
  then show ?case by (simp add: diceInv_roll)
next
  case (r_toggle s pid i)
  then show ?case using toggle_dice [of pid i s] by (simp add: diceInv_def)
next
  case (r_bank s pid)
  then show ?case using bank_dice [of pid s] by (auto intro: diceInv_fields diceInv_reset)
next
  case (r_farkle s)
  show ?case using nextTurn_fields [of "s\<lparr>roundAccumulatedScore := 0\<rparr>"]
    by (auto simp: farkle_def intro: diceInv_reset)
next
  case (r_restart s)
  then show ?case using restart_dice [of s] by (auto intro: diceInv_fields diceInv_reset)
qed

lemma unselected_count:
  "length ds - length (filter selected ds) = 0 \<longleftrightarrow> list_all selected ds"
proof -
  have "length (filter selected ds) + length (filter (\<lambda>d. \<not> selected d) ds) = length ds"
    by (rule sum_length_filter_compl)
  then have "length ds - length (filter selected ds) = length (filter (\<lambda>d. \<not> selected d) ds)"
    by simp
  then show ?thesis by (simp add: filter_empty_conv list_all_iff)
qed

lemma commitBank_success_dice:
  assumes "gameStatus s = Playing" and "succeeded (fst (commitBank k s))"
  shows "diceCountToRoll (snd (commitBank k s)) = 6"
proof -
  let ?s2 = "addToCurrent (s\<lparr>roundAccumulatedScore := roundAccumulatedScore s + k\<rparr>)"
  have st: "gameStatus (snd (checkWinCondition ?s2)) = Playing"
    using checkWin_fields [of ?s2] assms(1) by (simp add: addToCurrent_def)
  show ?thesis
    using assms(2) st nextTurn_fields [of "snd (checkWinCondition ?s2)"]
    by (auto simp: commitBank_def Let_def split: prod.splits outcome.splits if_splits)
qed

lemma bank_success_dice:
  assumes "succeeded (fst (bank pid s))"
  shows "diceCountToRoll (snd (bank pid s)) = 6"
proof -
  obtain k where k: "gameStatus s = Playing" "bank pid s = commitBank k s"
    using bank_success [OF assms] by blast
  then show ?thesis using commitBank_success_dice [of s k] assms by simp
qed

lemma score_one_five:
  "calculateScore [1, 5] DEFAULT_RULES = 150"
  "calculateScore [Suc 0, 5] DEFAULT_RULES = 150"
  "isScoringSelection [1, 5] DEFAULT_RULES"
  "isScoringSelection [Suc 0, 5] DEFAULT_RULES"
  by (simp_all add: isScoringSelection_alt calculateScore_alt faceScore_def)

text \<open>
  The server takes five 2s and a 5 as a selection: the re-roll succeeds with 50 points
  for the round and, all six dice being selected, six dice to roll again.
\<close>

lemma dead_dice_hot:
  "succeeded (fst (roll rngZero ''s1'' deadDiceTable)) \<and>
   roundAccumulatedScore (snd (roll rngZero ''s1'' deadDiceTable)) = 50 \<and>
   diceCountToRoll (snd (roll rngZero ''s1'' deadDiceTable)) = 6"
proof -
  have v: "isScoringSelection [2, 2, 2, 2, 2, 5] DEFAULT_RULES"
      "calculateScore [2, 2, 2, 2, 2, 5] DEFAULT_RULES = 50"
    by (simp_all add: isScoringSelection_alt calculateScore_alt faceScore_def card_insert_if)
  show ?thesis
    by (simp add: roll_def performRoll_def deadDiceTable_def twoSeated_eq
          getCurrentPlayer_def v Let_def)
qed

subsection \<open>Seats of a started game\<close>

lemma join_seats:
  "isFinalRound (snd (join_game sid nm s)) = isFinalRound s \<and>
   (gameStatus (snd (join_game sid nm s)) = gameStatus s \<and>
      currentPlayerIndex (snd (join_game sid nm s)) = currentPlayerIndex s \<or>
    gameStatus s = Waiting \<and> gameStatus (snd (join_game sid nm s)) = Playing \<and>
      length (players (snd (join_game sid nm s))) = 2 \<and>
      currentPlayerIndex (snd (join_game sid nm s)) = 0) \<and>
   (2 \<le> length (players s) \<longrightarrow>
      length (players (snd (join_game sid nm s))) = length (players s))"
  by (simp add: join_game_def addPlayer_def start_def resetRound_def Let_def
        split: option.splits prod.splits)

lemma leave_seats:
  "isFinalRound (leave_game sid s) = isFinalRound s \<and>
   gameStatus (leave_game sid s) = gameStatus s \<and>
   currentPlayerIndex (leave_game sid s) = currentPlayerIndex s \<and>
   (gameStatus s \<noteq> Waiting \<longrightarrow> length (players (leave_game sid s)) = length (players s))"
  by (simp add: leave_game_def Let_def split: option.splits)

lemma roll_index: "currentPlayerIndex (snd (roll rng pid s)) = currentPlayerIndex s"
  by (simp add: roll_def performRoll_def Let_def split: option.splits)

lemma toggle_index: "currentPlayerIndex (snd (toggleSelection pid i s)) = currentPlayerIndex s"
  by (simp add: toggleSelection_def split: option.splits)

lemma nextTurn_status_cases:
  "gameStatus (snd (nextTurn s)) = gameStatus s \<or>
   (isFinalRound s \<and> gameStatus (snd (nextTurn s)) = Finished)"
  by (simp add: nextTurn_def endGame_def resetRound_def Let_def)

lemma seatsInv_nextTurn:
  assumes "seatsInv s"
  shows "seatsInv (snd (nextTurn s))"
proof -
  have "(currentPlayerIndex s + 1) mod 2 < 2" by simp
  then show ?thesis
    using assms nextTurn_fields [of s] nextTurn_status_cases [of s]
    by (auto simp: seatsInv_def)
qed

lemma seatsInv_commitBank:
  assumes "seatsInv s" and "gameStatus s = Playing"
  shows "seatsInv (snd (commitBank k s))"
proof -
  let ?s2 = "addToCurrent (s\<lparr>roundAccumulatedScore := roundAccumulatedScore s + k\<rparr>)"
  have i2: "seatsInv ?s2" "gameStatus ?s2 = Playing"
    using assms by (simp_all add: seatsInv_def addToCurrent_def)
  have i3: "seatsInv (snd (checkWinCondition ?s2))"
    using i2 checkWin_fields [of ?s2] by (simp add: seatsInv_def)
  show ?thesis
    using commitBank_cases [of k s] i3 seatsInv_nextTurn [OF i3] by auto
qed

lemma seatsInv_bank:
  assumes "seatsInv s"
  shows "seatsInv (snd (bank pid s))"
proof -
  from bank_cases [of pid s] show ?thesis
  proof
    assume "snd (bank pid s) = s"
    then show ?thesis using assms by simp
  next
    assume "\<exists>k. gameStatus s = Playing \<and> currentPlayerIndex s < length (players s) \<and>
        bank pid s = commitBank k s"
    then obtain k where "gameStatus s = Playing" "bank pid s = commitBank k s" by blast
    then show ?thesis using seatsInv_commitBank [OF assms, of k] by simp
  qed
qed

lemma seatsInv_restart:
  assumes "seatsInv s"
  shows "seatsInv (snd (restart s))"
  using assms by (simp add: seatsInv_def restart_def resetRound_def)

lemma seatsInv_reachable: "reachable s \<Longrightarrow> seatsInv s"
proof (induction rule: reachable.induct)
  case (r_new code)
  show ?case by (simp add: seatsInv_def new_GameState_def)
next
  case (r_join s sid nm)
  then show ?case using join_seats [of sid nm s] by (auto simp: seatsInv_def)
next
  case (r_leave s sid)
  then show ?case using leave_seats [of sid s] by (auto simp: seatsInv_def)
next
  case (r_roll s rng pid)
  then show ?case using roll_keeps [of rng pid s] roll_index [of rng pid s]
    by (simp add: seatsInv_def)
next
  case (r_toggle s pid i)
  then show ?case using toggle_keeps [of pid i s] toggle_index [of pid i s]
    by (simp add: seatsInv_def)
next
  case (r_bank s pid)
  then show ?case by (simp add: seatsInv_bank)
next
  case (r_farkle s)
  then have "seatsInv (s\<lparr>roundAccumulatedScore := 0\<rparr>)" by (simp add: seatsInv_def)
  then show ?case unfolding farkle_def by (rule seatsInv_nextTurn)
next
  case (r_restart s)
  then show ?case by (simp add: seatsInv_restart)
qed

text \<open>
  In a reachable running game the current player exists, so no method raises there.
\<close>

lemma reachable_playing:
  assumes "reachable s" and "gameStatus s = Playing"
  shows "length (players s) = 2 \<and> currentPlayerIndex s < 2 \<and>
         getCurrentPlayer s = Some (players s ! currentPlayerIndex s)"
  using seatsInv_reachable [OF assms(1)] assms(2)
  by (simp add: seatsInv_def getCurrentPlayer_def)

subsection \<open>The trigger seat on record\<close>

lemma join_trigger:
  "finalRoundTriggeredBy (snd (join_game sid nm s)) = finalRoundTriggeredBy s \<and>
   (gameStatus (snd (join_game sid nm s)) = Finished \<longrightarrow> gameStatus s = Finished)"
  by (simp add: join_game_def addPlayer_def start_def resetRound_def Let_def
        split: option.splits prod.splits)

lemma leave_trigger:
  "finalRoundTriggeredBy (leave_game sid s) = finalRoundTriggeredBy s"
  by (simp add: leave_game_def Let_def split: option.splits)

lemma nextTurn_finished:
  "gameStatus (snd (nextTurn s)) = Finished \<Longrightarrow>
   gameStatus s = Finished \<or> finalRoundTriggeredBy s \<noteq> None"
  by (auto simp: nextTurn_def endGame_def resetRound_def Let_def split: if_splits)

lemma triggerInv_nextTurn:
  assumes "triggerInv s"
  shows "triggerInv (snd (nextTurn s))"
  using assms nextTurn_fields [of s] nextTurn_finished [of s]
  by (auto simp: triggerInv_def)

lemma triggerInv_checkWin:
  assumes "triggerInv s"
  shows "triggerInv (snd (checkWinCondition s))"
  using assms by (auto simp: triggerInv_def checkWinCondition_def split: option.splits)

lemma triggerInv_commitBank:
  assumes "triggerInv s"
  shows "triggerInv (snd (commitBank k s))"
proof -
  let ?s2 = "addToCurrent (s\<lparr>roundAccumulatedScore := roundAccumulatedScore s + k\<rparr>)"
  have "triggerInv ?s2" using assms by (simp add: triggerInv_def addToCurrent_def)
  then have i3: "triggerInv (snd (checkWinCondition ?s2))" by (rule triggerInv_checkWin)
  show ?thesis
    using commitBank_cases [of k s] i3 triggerInv_nextTurn [OF i3] by auto
qed

lemma triggerInv_bank:
  assumes "triggerInv s"
  shows "triggerInv (snd (bank pid s))"
proof -
  from bank_cases [of pid s] show ?thesis
  proof
    assume "snd (bank pid s) = s"
    then show ?thesis using assms by simp
  next
    assume "\<exists>k. gameStatus s = Playing \<and> currentPlayerIndex s < length (players s) \<and>
        bank pid s = commitBank k s"
    then obtain k where "bank pid s = commitBank k s" by blast
    then show ?thesis using triggerInv_commitBank [OF assms, of k] by simp
  qed
qed

lemma triggerInv_reachable: "reachable s \<Longrightarrow> triggerInv s"
proof (induction rule: reachable.induct)
  case (r_new code)
  show ?case by (simp add: triggerInv_def new_GameState_def)
next
  case (r_join s sid nm)
  then show ?case using join_trigger [of sid nm s] join_seats [of sid nm s]
    by (auto simp: triggerInv_def)
next
  case (r_leave s sid)
  then show ?case using leave_trigger [of sid s] leave_seats [of sid s]
    by (auto simp: triggerInv_def)
next
  case (r_roll s rng pid)
  then show ?case using roll_keeps [of rng pid s] by (simp add: triggerInv_def)
next
  case (r_toggle s pid i)
  then show ?case using toggle_keeps [of pid i s] by (simp add: triggerInv_def)
next
  case (r_bank s pid)
  then show ?case by (simp add: triggerInv_bank)
next
  case (r_farkle s)
  then have "triggerInv (s\<lparr>roundAccumulatedScore := 0\<rparr>)" by (simp add: triggerInv_def)
  then show ?case unfolding farkle_def by (rule triggerInv_nextTurn)
next
  case (r_restart s)
  then show ?case by (auto simp: triggerInv_def restart_def resetRound_def)
qed

text \<open>
  A restart of any reachable finished game leaves the trigger seat of the match that
  just ended on record.
\<close>

lemma restart_never_clears_trigger:
  assumes "reachable s" and "gameStatus s = Finished"
  shows "fst (restart s) \<and> finalRoundTriggeredBy (snd (restart s)) \<noteq> None"
  using triggerInv_reachable [OF assms(1)] assms(2) restart_fields(1,2) [of s]
  by (simp add: triggerInv_def)

section \<open>Claims about the match state machine\<close>

subsection \<open>Rejected and accepted calls of roll and bank\<close>

text \<open>
  Claim C8. A \<^verbatim>\<open>roll\<close> by the current player while dice are on the table and
  none of them is selected returns the error "Must select dice to re-roll" and leaves
  the whole state as it was; in particular the dice array, the round score and the
  number of dice to roll are those before the call.
\<close>

theorem C8_roll_without_selection:
  assumes "gameStatus s = Playing" and "getCurrentPlayer s = Some p" and "playerId p = pid"
    and "currentDice s \<noteq> []" and "\<forall>d \<in> set (currentDice s). \<not> selected d"
  shows "roll rng pid s = (Error MustSelectToReroll, s) \<and>
         currentDice (snd (roll rng pid s)) = currentDice s \<and>
         roundAccumulatedScore (snd (roll rng pid s)) = roundAccumulatedScore s \<and>
         diceCountToRoll (snd (roll rng pid s)) = diceCountToRoll s"
proof -
  have "filter selected (currentDice s) = []"
    using assms(5) by (simp add: filter_empty_conv)
  then have "roll rng pid s = (Error MustSelectToReroll, s)"
    using assms(1-4) by (simp add: roll_def)
  then show ?thesis by simp
qed

theorem C8_witness:
  "roll rngZero ''s1'' threeOnTable = (Error MustSelectToReroll, threeOnTable) \<and>
   diceCountToRoll (snd (roll rngZero ''s1'' threeOnTable)) = 3"
  using C8_roll_without_selection [of threeOnTable "players threeOnTable ! 0" "''s1''" rngZero]
  by (simp add: threeOnTable_def twoSeated_eq getCurrentPlayer_def)

text \<open>
  Claim C7. The current player banks with no die selected, in a game with both seats
  taken. With dice on the table and a round score of 0 the call returns the error
  "Cannot bank 0" and the state is unchanged. With a round score other than 0 the call
  succeeds: the round score, exactly, is added to the banking player's total and to
  nobody else's, the turn passes to the other seat and the round state is reset (round
  score 0, six dice to roll, no dice on the table).
\<close>

theorem C7_bank_without_selection:
  assumes "gameStatus s = Playing" and "getCurrentPlayer s = Some p" and "playerId p = pid"
    and "length (players s) = 2" and "\<forall>d \<in> set (currentDice s). \<not> selected d"
  shows "(currentDice s \<noteq> [] \<and> roundAccumulatedScore s = 0 \<longrightarrow>
            bank pid s = (Error CannotBankZero, s)) \<and>
         (roundAccumulatedScore s \<noteq> 0 \<longrightarrow>
            fst (bank pid s) = Success () \<and>
            players (snd (bank pid s)) =
              (players s)[currentPlayerIndex s :=
                 p\<lparr>score := score p + roundAccumulatedScore s\<rparr>] \<and>
            currentPlayerIndex (snd (bank pid s)) = (currentPlayerIndex s + 1) mod 2 \<and>
            roundAccumulatedScore (snd (bank pid s)) = 0 \<and>
            diceCountToRoll (snd (bank pid s)) = 6 \<and>
            currentDice (snd (bank pid s)) = [])"
proof -
  have sel: "filter selected (currentDice s) = []"
    using assms(5) by (simp add: filter_empty_conv)
  have cur: "currentPlayerIndex s < length (players s)" "p = players s ! currentPlayerIndex s"
    using assms(2) by (auto simp: getCurrentPlayer_def split: if_splits)
  note b = bank_no_selection [OF assms(1-3) sel]
  note c = commitBank_fields [OF assms(1) cur(1) assms(4), of 0]
  show ?thesis using b c cur(2) by simp
qed

theorem C7_witness:
  "bank ''s1'' threeOnTable = (Error CannotBankZero, threeOnTable) \<and>
   fst (bank ''s1'' (threeOnTable\<lparr>roundAccumulatedScore := 350\<rparr>)) = Success () \<and>
   map score (players (snd (bank ''s1'' (threeOnTable\<lparr>roundAccumulatedScore := 350\<rparr>))))
     = [350, 0] \<and>
   currentPlayerIndex (snd (bank ''s1'' (threeOnTable\<lparr>roundAccumulatedScore := 350\<rparr>))) = 1"
  using C7_bank_without_selection [of threeOnTable "players threeOnTable ! 0" "''s1''"]
    C7_bank_without_selection [of "threeOnTable\<lparr>roundAccumulatedScore := 350\<rparr>"
      "players threeOnTable ! 0" "''s1''"]
  by (simp add: threeOnTable_def twoSeated_eq getCurrentPlayer_def)

text \<open>
  Claim C10. The current player of a running game banks before rolling: no dice on the
  table and a round score of 0. The call does not fail; every total stays as it was (0
  is added) and the turn passes to the other seat.
\<close>

theorem C10_bank_before_rolling:
  assumes "gameStatus s = Playing" and "getCurrentPlayer s = Some p" and "playerId p = pid"
    and "length (players s) = 2" and "currentDice s = []" and "roundAccumulatedScore s = 0"
  shows "fst (bank pid s) = Success () \<and>
         players (snd (bank pid s)) = players s \<and>
         currentPlayerIndex (snd (bank pid s)) = (currentPlayerIndex s + 1) mod 2"
proof -
  have cur: "currentPlayerIndex s < length (players s)" "p = players s ! currentPlayerIndex s"
    using assms(2) by (auto simp: getCurrentPlayer_def split: if_splits)
  have b: "bank pid s = commitBank 0 s"
    using bank_no_selection [OF assms(1-3)] assms(5) by simp
  note c = commitBank_fields [OF assms(1) cur(1) assms(4), of 0]
  show ?thesis using b c assms(6) by simp
qed

theorem C10_witness:
  "fst (bank ''s1'' twoSeated) = Success () \<and>
   map score (players (snd (bank ''s1'' twoSeated))) = [0, 0] \<and>
   currentPlayerIndex (snd (bank ''s1'' twoSeated)) = 1"
  using C10_bank_before_rolling [of twoSeated "players twoSeated ! 0" "''s1''"]
  by (simp add: twoSeated_eq getCurrentPlayer_def)

subsection \<open>The final round\<close>

text \<open>
  Claim C4. In a running game with both seats taken, where the caller is the current
  player: (1) a successful \<^verbatim>\<open>bank\<close> that brings the banking player's total to
  10000 or more while the final-round flag is clear sets the flag, records the banking
  seat as the trigger seat, advances the turn and leaves the match running; (2) once
  set, the flag and the trigger seat are kept by \<^verbatim>\<open>roll\<close>, \<^verbatim>\<open>toggleSelection\<close>,
  \<^verbatim>\<open>bank\<close> and the bust timer, and \<^verbatim>\<open>roll\<close> and \<^verbatim>\<open>toggleSelection\<close> leave the
  status alone; (3) a turn advance, alone or inside a successful \<^verbatim>\<open>bank\<close> or a bust,
  finishes the match exactly when the flag is set and the seat that becomes current is
  the trigger seat; (4) the winner recorded then is the seat with the strictly higher
  total, or the tie marker.
\<close>

theorem C4_final_round:
  assumes "gameStatus s = Playing" and "length (players s) = 2"
    and "getCurrentPlayer s = Some p" and "playerId p = pid"
  shows
    "(succeeded (fst (bank pid s)) \<and> \<not> isFinalRound s \<and>
      10000 \<le> score (players (snd (bank pid s)) ! currentPlayerIndex s) \<longrightarrow>
        isFinalRound (snd (bank pid s)) \<and>
        finalRoundTriggeredBy (snd (bank pid s)) = Some (currentPlayerIndex s) \<and>
        gameStatus (snd (bank pid s)) = Playing \<and>
        currentPlayerIndex (snd (bank pid s)) = (currentPlayerIndex s + 1) mod 2) \<and>
     (isFinalRound s \<longrightarrow>
        isFinalRound (snd (roll rng pid s)) \<and>
        finalRoundTriggeredBy (snd (roll rng pid s)) = finalRoundTriggeredBy s \<and>
        isFinalRound (snd (toggleSelection pid i s)) \<and>
        finalRoundTriggeredBy (snd (toggleSelection pid i s)) = finalRoundTriggeredBy s \<and>
        isFinalRound (snd (bank pid s)) \<and>
        finalRoundTriggeredBy (snd (bank pid s)) = finalRoundTriggeredBy s \<and>
        isFinalRound (snd (farkle s)) \<and>
        finalRoundTriggeredBy (snd (farkle s)) = finalRoundTriggeredBy s) \<and>
     gameStatus (snd (roll rng pid s)) = Playing \<and>
     gameStatus (snd (toggleSelection pid i s)) = Playing \<and>
     (gameStatus (snd (nextTurn s)) = Finished \<longleftrightarrow>
        isFinalRound s \<and>
        finalRoundTriggeredBy s = Some ((currentPlayerIndex s + 1) mod 2)) \<and>
     (gameStatus (snd (farkle s)) = Finished \<longleftrightarrow>
        isFinalRound s \<and>
        finalRoundTriggeredBy s = Some ((currentPlayerIndex s + 1) mod 2)) \<and>
     (succeeded (fst (bank pid s)) \<longrightarrow>
        (gameStatus (snd (bank pid s)) = Finished \<longleftrightarrow>
           isFinalRound s \<and>
           finalRoundTriggeredBy s = Some ((currentPlayerIndex s + 1) mod 2))) \<and>
     (gameStatus (snd (nextTurn s)) = Finished \<longrightarrow>
        winner (snd (nextTurn s)) =
          (if score (players s ! 1) < score (players s ! 0) then PlayerAt 0
           else if score (players s ! 0) < score (players s ! 1) then PlayerAt 1
           else Tie)) \<and>
     (succeeded (fst (bank pid s)) \<and> gameStatus (snd (bank pid s)) = Finished \<longrightarrow>
        winner (snd (bank pid s)) =
          (if score (players (snd (bank pid s)) ! 1) < score (players (snd (bank pid s)) ! 0)
           then PlayerAt 0
           else if score (players (snd (bank pid s)) ! 0) < score (players (snd (bank pid s)) ! 1)
           then PlayerAt 1 else Tie))"
proof -
  have two: "2 \<le> length (players s)" using assms(2) by simp
  have a: "succeeded (fst (bank pid s)) \<and> \<not> isFinalRound s \<and>
      10000 \<le> score (players (snd (bank pid s)) ! currentPlayerIndex s) \<longrightarrow>
        isFinalRound (snd (bank pid s)) \<and>
        finalRoundTriggeredBy (snd (bank pid s)) = Some (currentPlayerIndex s) \<and>
        gameStatus (snd (bank pid s)) = Playing \<and>
        currentPlayerIndex (snd (bank pid s)) = (currentPlayerIndex s + 1) mod 2"
    using bank_starts_final_round [OF assms(1,3,4,2)] by blast
  have b: "isFinalRound s \<longrightarrow>
        isFinalRound (snd (roll rng pid s)) \<and>
        finalRoundTriggeredBy (snd (roll rng pid s)) = finalRoundTriggeredBy s \<and>
        isFinalRound (snd (toggleSelection pid i s)) \<and>
        finalRoundTriggeredBy (snd (toggleSelection pid i s)) = finalRoundTriggeredBy s \<and>
        isFinalRound (snd (bank pid s)) \<and>
        finalRoundTriggeredBy (snd (bank pid s)) = finalRoundTriggeredBy s \<and>
        isFinalRound (snd (farkle s)) \<and>
        finalRoundTriggeredBy (snd (farkle s)) = finalRoundTriggeredBy s"
    using roll_keeps [of rng pid s] toggle_keeps [of pid i s] bank_keeps_final [of s pid]
      farkle_keeps [of s] by simp
  have c: "gameStatus (snd (roll rng pid s)) = Playing"
      "gameStatus (snd (toggleSelection pid i s)) = Playing"
    using roll_keeps [of rng pid s] toggle_keeps [of pid i s] assms(1) by simp_all
  have d: "gameStatus (snd (nextTurn s)) = Finished \<longleftrightarrow>
        isFinalRound s \<and>
        finalRoundTriggeredBy s = Some ((currentPlayerIndex s + 1) mod 2)"
    using nextTurn_status [OF two] assms(1) by auto
  have e: "gameStatus (snd (nextTurn s)) = Finished \<longrightarrow>
        winner (snd (nextTurn s)) =
          (if score (players s ! 1) < score (players s ! 0) then PlayerAt 0
           else if score (players s ! 0) < score (players s ! 1) then PlayerAt 1
           else Tie)"
    using nextTurn_status [OF two] assms(1) by auto
  note f = farkle_finishes_iff [OF assms(1,2)]
  have g: "succeeded (fst (bank pid s)) \<longrightarrow>
        (gameStatus (snd (bank pid s)) = Finished \<longleftrightarrow>
           isFinalRound s \<and>
           finalRoundTriggeredBy s = Some ((currentPlayerIndex s + 1) mod 2))"
    using bank_finishes_iff [OF assms(1,2)] by blast
  have h: "succeeded (fst (bank pid s)) \<and> gameStatus (snd (bank pid s)) = Finished \<longrightarrow>
        winner (snd (bank pid s)) =
          (if score (players (snd (bank pid s)) ! 1) < score (players (snd (bank pid s)) ! 0)
           then PlayerAt 0
           else if score (players (snd (bank pid s)) ! 0) < score (players (snd (bank pid s)) ! 1)
           then PlayerAt 1 else Tie)"
    using bank_finishes_iff [OF assms(1,2)] by blast
  from a b c d e f g h show ?thesis by (intro conjI)
qed

theorem C4_witness:
  "succeeded (fst (bank ''s1'' lastSelection)) \<and> \<not> isFinalRound lastSelection \<and>
   isFinalRound closingLap \<and> finalRoundTriggeredBy closingLap = Some 0 \<and>
   gameStatus closingLap = Playing \<and> currentPlayerIndex closingLap = 1 \<and>
   succeeded (fst (bank ''s2'' closingLap)) \<and>
   gameStatus finishedGame = Finished \<and> winner finishedGame = PlayerAt 0"
proof -
  have h1: "gameStatus lastSelection = Playing" "length (players lastSelection) = 2"
      "getCurrentPlayer lastSelection = Some (players lastSelection ! 0)"
      "playerId (players lastSelection ! 0) = ''s1''"
    by (simp_all add: lastSelection_def twoSeated_eq getCurrentPlayer_def)
  have ok1: "succeeded (fst (bank ''s1'' lastSelection))"
    by (simp add: lastSelection_def twoSeated_eq bank_def commitBank_def
          getCurrentPlayer_def addToCurrent_def checkWinCondition_def nextTurn_def
          resetRound_def score_single_one)
  have nf: "\<not> isFinalRound lastSelection" "currentPlayerIndex lastSelection = 0"
    by (simp_all add: lastSelection_def twoSeated_eq)
  have b1: "snd (bank ''s1'' lastSelection) = closingLap"
    by (simp add: closingLap_def)
  have w: "10000 \<le> score (players closingLap ! 0)"
    by (simp add: closingLap_eq twoSeated_eq)
  note t1 = C4_final_round [OF h1, where rng = rngZero and i = "''a''"]
  have r1: "isFinalRound closingLap \<and> finalRoundTriggeredBy closingLap = Some 0 \<and>
      gameStatus closingLap = Playing \<and> currentPlayerIndex closingLap = 1"
    using t1 ok1 nf w unfolding b1 by simp
  have h2: "gameStatus closingLap = Playing" "length (players closingLap) = 2"
      "getCurrentPlayer closingLap = Some (players closingLap ! 1)"
      "playerId (players closingLap ! 1) = ''s2''"
    by (simp_all add: closingLap_eq twoSeated_eq getCurrentPlayer_def)
  have ok2: "succeeded (fst (bank ''s2'' closingLap))"
    by (simp add: closingLap_eq twoSeated_eq bank_def commitBank_def
          getCurrentPlayer_def addToCurrent_def checkWinCondition_def nextTurn_def
          resetRound_def endGame_def)
  have b2: "snd (bank ''s2'' closingLap) = finishedGame"
    by (simp add: finishedGame_def)
  have sc: "score (players finishedGame ! 1) < score (players finishedGame ! 0)"
    by (simp add: finishedGame_eq twoSeated_eq)
  note t2 = C4_final_round [OF h2, where rng = rngZero and i = "''a''"]
  have r2: "gameStatus finishedGame = Finished \<and> winner finishedGame = PlayerAt 0"
    using t2 ok2 r1 sc unfolding b2 by simp
  show ?thesis using ok1 nf(1) r1 ok2 r2 by simp
qed

subsection \<open>Restart\<close>

text \<open>
  Claim C5 fails on the code. The \<^verbatim>\<open>restart\<close> handler acts only on a finished
  game and resets the totals, the seat, the round state, the final-round flag, the
  winner and the status, but it has no assignment to \<^verbatim>\<open>finalRoundTriggeredBy\<close>,
  which the constructor initialises to \<^verbatim>\<open>null\<close>: after a match that seat 0 closed,
  the restarted game still records seat 0 as the trigger seat.
\<close>

theorem C5_restart_keeps_trigger_seat:
  "gameStatus finishedGame = Finished \<and>
   finalRoundTriggeredBy finishedGame = Some 0 \<and>
   fst (restart finishedGame) = True \<and>
   finalRoundTriggeredBy (snd (restart finishedGame)) = Some 0 \<and>
   finalRoundTriggeredBy (new_GameState ''Table 1'') = None"
  by (simp add: finishedGame_eq twoSeated_eq restart_def resetRound_def new_GameState_def)

subsection \<open>Preconditions of bank\<close>

text \<open>
  Claim C6, amended. When the game is not running, or the caller is not the current
  seat's occupant, \<^verbatim>\<open>bank\<close> returns \<^verbatim>\<open>undefined\<close> (a bare \<^verbatim>\<open>return;\<close>): no
  error object reaches the caller, and the state is unchanged. \<^verbatim>\<open>roll\<close> in the same
  two situations returns the errors "Game not active" and "Not your turn", also with
  the state unchanged.
\<close>

theorem C6_bank_preconditions_silent:
  "(gameStatus s \<noteq> Playing \<longrightarrow>
      bank pid s = (Undefined, s) \<and> roll rng pid s = (Error GameNotActive, s)) \<and>
   (gameStatus s = Playing \<and> getCurrentPlayer s = Some p \<and> playerId p \<noteq> pid \<longrightarrow>
      bank pid s = (Undefined, s) \<and> roll rng pid s = (Error NotYourTurn, s))"
  by (simp add: bank_def roll_def)

text \<open>
  The claim as stated fails: \<^verbatim>\<open>bank\<close> on a waiting game does not return the error
  "Game not active", and \<^verbatim>\<open>bank\<close> by the player who is not current does not return
  "Not your turn", where \<^verbatim>\<open>roll\<close> returns both.
\<close>

theorem C6_counterexample:
  "fst (bank ''s1'' (new_GameState ''Table 1'')) \<noteq> Error GameNotActive \<and>
   fst (roll rngZero ''s1'' (new_GameState ''Table 1'')) = Error GameNotActive \<and>
   fst (bank ''s2'' twoSeated) \<noteq> Error NotYourTurn \<and>
   fst (roll rngZero ''s2'' twoSeated) = Error NotYourTurn"
  by (simp add: bank_def roll_def new_GameState_def twoSeated_eq getCurrentPlayer_def)

theorem C6_witness:
  "bank ''s1'' (new_GameState ''Table 1'') = (Undefined, new_GameState ''Table 1'') \<and>
   roll rngZero ''s1'' (new_GameState ''Table 1'') = (Error GameNotActive, new_GameState ''Table 1'') \<and>
   bank ''s2'' twoSeated = (Undefined, twoSeated) \<and>
   roll rngZero ''s2'' twoSeated = (Error NotYourTurn, twoSeated)"
  using C6_bank_preconditions_silent [where s = "new_GameState ''Table 1''" and pid = "''s1''"
      and rng = rngZero]
    C6_bank_preconditions_silent [where s = twoSeated and p = "players twoSeated ! 0"
      and pid = "''s2''" and rng = rngZero]
  by (simp add: new_GameState_def twoSeated_eq getCurrentPlayer_def)

subsection \<open>The number of dice to roll\<close>

text \<open>
  Claim C9. In every state reachable from a new room through join, leave, roll,
  toggleSelection, bank, the bust timer and restart, \<^verbatim>\<open>diceCountToRoll\<close> is between
  1 and 6. A successful re-roll with some die left unselected sets it to the number of
  dice on the table minus the number of selected dice; a successful re-roll that
  selects every die on the table (hot dice) and a first roll set it to 6; the dice
  rolled are as many as it says. It is 6 at the start of every turn: after a turn
  advance, a bust, a successful bank, the start of the game and a restart.
\<close>

theorem C9_dice_to_roll:
  "(reachable s \<longrightarrow> 1 \<le> diceCountToRoll s \<and> diceCountToRoll s \<le> 6) \<and>
   (succeeded (fst (roll rng pid s)) \<and> currentDice s \<noteq> [] \<and>
    \<not> list_all selected (currentDice s) \<longrightarrow>
      diceCountToRoll (snd (roll rng pid s)) =
        length (currentDice s) - length (filter selected (currentDice s))) \<and>
   (succeeded (fst (roll rng pid s)) \<and> currentDice s \<noteq> [] \<and>
    list_all selected (currentDice s) \<longrightarrow>
      diceCountToRoll (snd (roll rng pid s)) = 6) \<and>
   (succeeded (fst (roll rng pid s)) \<and> currentDice s = [] \<longrightarrow>
      diceCountToRoll (snd (roll rng pid s)) = 6) \<and>
   (succeeded (fst (roll rng pid s)) \<longrightarrow>
      length (currentDice (snd (roll rng pid s))) = diceCountToRoll (snd (roll rng pid s))) \<and>
   diceCountToRoll (snd (nextTurn s)) = 6 \<and>
   diceCountToRoll (snd (farkle s)) = 6 \<and>
   (succeeded (fst (bank pid s)) \<longrightarrow> diceCountToRoll (snd (bank pid s)) = 6) \<and>
   (fst (start s) \<longrightarrow> diceCountToRoll (snd (start s)) = 6) \<and>
   (fst (restart s) \<longrightarrow> diceCountToRoll (snd (restart s)) = 6)"
proof -
  have a: "reachable s \<longrightarrow> 1 \<le> diceCountToRoll s \<and> diceCountToRoll s \<le> 6"
    using diceInv_reachable [of s] by (simp add: diceInv_def)
  note r = roll_dice [of rng pid s]
  note u = unselected_count [of "currentDice s"]
  have b: "succeeded (fst (roll rng pid s)) \<and> currentDice s \<noteq> [] \<and>
    \<not> list_all selected (currentDice s) \<longrightarrow>
      diceCountToRoll (snd (roll rng pid s)) =
        length (currentDice s) - length (filter selected (currentDice s))"
    using r u by auto
  have c: "succeeded (fst (roll rng pid s)) \<and> currentDice s \<noteq> [] \<and>
    list_all selected (currentDice s) \<longrightarrow>
      diceCountToRoll (snd (roll rng pid s)) = 6"
    using r u by auto
  have d: "succeeded (fst (roll rng pid s)) \<and> currentDice s = [] \<longrightarrow>
      diceCountToRoll (snd (roll rng pid s)) = 6"
    using r by auto
  have e: "succeeded (fst (roll rng pid s)) \<longrightarrow>
      length (currentDice (snd (roll rng pid s))) = diceCountToRoll (snd (roll rng pid s))"
    using r by auto
  have f: "diceCountToRoll (snd (nextTurn s)) = 6"
    using nextTurn_fields [of s] by simp
  have g: "diceCountToRoll (snd (farkle s)) = 6"
    using nextTurn_fields [of "s\<lparr>roundAccumulatedScore := 0\<rparr>"] by (simp add: farkle_def)
  have h: "succeeded (fst (bank pid s)) \<longrightarrow> diceCountToRoll (snd (bank pid s)) = 6"
    using bank_success_dice [of pid s] by blast
  have i: "fst (start s) \<longrightarrow> diceCountToRoll (snd (start s)) = 6"
    by (simp add: start_def resetRound_def)
  have j: "fst (restart s) \<longrightarrow> diceCountToRoll (snd (restart s)) = 6"
    by (simp add: restart_def resetRound_def)
  from a b c d e f g h i j show ?thesis by (intro conjI)
qed

theorem C9_witness:
  "reachable (snd (roll rngZero ''s1'' twoSeated)) \<and>
   1 \<le> diceCountToRoll (snd (roll rngZero ''s1'' twoSeated)) \<and>
   diceCountToRoll (snd (roll rngZero ''s1'' twoSeated)) \<le> 6 \<and>
   succeeded (fst (roll rngZero ''s1'' lastSelection)) \<and>
   diceCountToRoll (snd (roll rngZero ''s1'' lastSelection)) = 1 \<and>
   succeeded (fst (roll rngZero ''s1'' hotTable)) \<and>
   diceCountToRoll (snd (roll rngZero ''s1'' hotTable)) = 6 \<and>
   succeeded (fst (roll rngZero ''s1'' twoSeated)) \<and>
   diceCountToRoll (snd (roll rngZero ''s1'' twoSeated)) = 6 \<and>
   succeeded (fst (bank ''s1'' lastSelection)) \<and>
   diceCountToRoll (snd (bank ''s1'' lastSelection)) = 6 \<and>
   fst (start (twoSeated\<lparr>gameStatus := Waiting\<rparr>)) \<and>
   diceCountToRoll (snd (start (twoSeated\<lparr>gameStatus := Waiting\<rparr>))) = 6 \<and>
   fst (restart finishedGame) \<and> diceCountToRoll (snd (restart finishedGame)) = 6"
proof -
  have re: "reachable (snd (roll rngZero ''s1'' twoSeated))"
    by (intro reachable.intros reachable_twoSeated)
  have ok1: "succeeded (fst (roll rngZero ''s1'' lastSelection))"
    "currentDice lastSelection \<noteq> []" "\<not> list_all selected (currentDice lastSelection)"
    "length (currentDice lastSelection) - length (filter selected (currentDice lastSelection)) = 1"
    by (simp_all add: roll_def performRoll_def lastSelection_def twoSeated_eq
          getCurrentPlayer_def score_single_one Let_def)
  have ok2: "succeeded (fst (roll rngZero ''s1'' hotTable))"
    "currentDice hotTable \<noteq> []" "list_all selected (currentDice hotTable)"
    by (simp_all add: roll_def performRoll_def hotTable_def twoSeated_eq
          getCurrentPlayer_def score_one_five Let_def)
  have ok3: "succeeded (fst (roll rngZero ''s1'' twoSeated))" "currentDice twoSeated = []"
    by (simp_all add: roll_def performRoll_def twoSeated_eq getCurrentPlayer_def Let_def)
  have ok4: "succeeded (fst (bank ''s1'' lastSelection))"
    by (simp add: lastSelection_def twoSeated_eq bank_def commitBank_def
          getCurrentPlayer_def addToCurrent_def checkWinCondition_def nextTurn_def
          resetRound_def score_single_one)
  have ok5: "fst (start (twoSeated\<lparr>gameStatus := Waiting\<rparr>))"
    by (simp add: start_def twoSeated_eq)
  have ok6: "fst (restart finishedGame)"
    by (simp add: restart_def finishedGame_eq)
  show ?thesis
    using C9_dice_to_roll [where s = "snd (roll rngZero ''s1'' twoSeated)"
        and rng = rngZero and pid = "''s1''"]
      C9_dice_to_roll [where s = lastSelection and rng = rngZero and pid = "''s1''"]
      C9_dice_to_roll [where s = hotTable and rng = rngZero and pid = "''s1''"]
      C9_dice_to_roll [where s = twoSeated and rng = rngZero and pid = "''s1''"]
      C9_dice_to_roll [where s = "twoSeated\<lparr>gameStatus := Waiting\<rparr>" and rng = rngZero
        and pid = "''s1''"]
      C9_dice_to_roll [where s = finishedGame and rng = rngZero and pid = "''s1''"]
      re ok1 ok2 ok3 ok4 ok5 ok6
    by simp
qed

end
